theory Spec2Isabelle
  imports Main "HOL-Library.Word"
begin

unbundle bit_operations_syntax

section \<open>Bytes and JavaScript strings\<close>

text \<open>
  The handler of \<^verbatim>\<open>src/pages/api/hooks/ls.ts\<close> moves between two kinds of data: the
  bytes of a \<^verbatim>\<open>Buffer\<close> (the request body as it arrived, the two buffers handed to
  \<^verbatim>\<open>crypto.timingSafeEqual\<close>) and JavaScript strings, which are sequences
  of 16-bit code units (\<^verbatim>\<open>rawBody\<close>, the hex digest, the header value, every message).
  A byte is a \<^typ>\<open>char\<close>, a code unit a \<^typ>\<open>16 word\<close>.
\<close>

type_synonym bytes = string
type_synonym code_unit = "16 word"
type_synonym jsstring = "code_unit list"

text \<open>A string literal of the source; every literal of the handler is ASCII.\<close>

definition js :: "string \<Rightarrow> jsstring" where
  "js s = map (\<lambda>c. of_nat (of_char c)) s"

subsection \<open>\<^verbatim>\<open>buf.toString('utf-8')\<close>\<close>

text \<open>
  Decoding never fails. Node's documentation of \<^verbatim>\<open>'utf8'\<close>: when a \<^verbatim>\<open>Buffer\<close> that does not
  exclusively contain valid UTF-8 is decoded into a string, U+FFFD stands for the errors.
  Every maximal ill-formed part of the input becomes one U+FFFD: a lead byte is followed
  only by the continuation bytes that keep the sequence well formed (no overlong forms, no
  surrogates, nothing above U+10FFFF), and a byte that ends a sequence early is read again
  as the start of the next one. A byte order mark is kept.
\<close>

definition cont :: "char \<Rightarrow> bool" where
  "cont b = (0x80 \<le> (of_char b :: nat) \<and> (of_char b :: nat) \<le> 0xBF)"

definition second3 :: "nat \<Rightarrow> char \<Rightarrow> bool" where
  "second3 n0 b =
     ((if n0 = 0xE0 then 0xA0 else 0x80) \<le> (of_char b :: nat)
      \<and> (of_char b :: nat) \<le> (if n0 = 0xED then 0x9F else 0xBF))"

definition second4 :: "nat \<Rightarrow> char \<Rightarrow> bool" where
  "second4 n0 b =
     ((if n0 = 0xF0 then 0x90 else 0x80) \<le> (of_char b :: nat)
      \<and> (of_char b :: nat) \<le> (if n0 = 0xF4 then 0x8F else 0xBF))"

definition low6 :: "char \<Rightarrow> nat" where
  "low6 b = of_char b - 0x80"

fun decode_utf8 :: "bytes \<Rightarrow> nat list" where
  "decode_utf8 [] = []"
| "decode_utf8 (b0 # bs) =
     (let n0 = of_char b0 :: nat in
      if n0 < 0x80 then n0 # decode_utf8 bs
      else if 0xC2 \<le> n0 \<and> n0 \<le> 0xDF then
        (case bs of
           [] \<Rightarrow> [0xFFFD]
         | b1 # r1 \<Rightarrow>
             if cont b1 then ((n0 - 0xC0) * 64 + low6 b1) # decode_utf8 r1
             else 0xFFFD # decode_utf8 bs)
      else if 0xE0 \<le> n0 \<and> n0 \<le> 0xEF then
        (case bs of
           [] \<Rightarrow> [0xFFFD]
         | b1 # r1 \<Rightarrow>
             if second3 n0 b1 then
               (case r1 of
                  [] \<Rightarrow> [0xFFFD]
                | b2 # r2 \<Rightarrow>
                    if cont b2
                    then (((n0 - 0xE0) * 64 + low6 b1) * 64 + low6 b2) # decode_utf8 r2
                    else 0xFFFD # decode_utf8 r1)
             else 0xFFFD # decode_utf8 bs)
      else if 0xF0 \<le> n0 \<and> n0 \<le> 0xF4 then
        (case bs of
           [] \<Rightarrow> [0xFFFD]
         | b1 # r1 \<Rightarrow>
             if second4 n0 b1 then
               (case r1 of
                  [] \<Rightarrow> [0xFFFD]
                | b2 # r2 \<Rightarrow>
                    if cont b2 then
                      (case r2 of
                         [] \<Rightarrow> [0xFFFD]
                       | b3 # r3 \<Rightarrow>
                           if cont b3
                           then ((((n0 - 0xF0) * 64 + low6 b1) * 64 + low6 b2) * 64 + low6 b3)
                                  # decode_utf8 r3
                           else 0xFFFD # decode_utf8 r2)
                    else 0xFFFD # decode_utf8 r1)
             else 0xFFFD # decode_utf8 bs)
      else 0xFFFD # decode_utf8 bs)"

text \<open>A code point as one code unit, or as a surrogate pair above the basic plane.\<close>

definition utf16 :: "nat \<Rightarrow> jsstring" where
  "utf16 n =
     (if n < 0x10000 then [of_nat n]
      else [of_nat (0xD800 + (n - 0x10000) div 0x400), of_nat (0xDC00 + (n - 0x10000) mod 0x400)])"

definition toString_utf8 :: "bytes \<Rightarrow> jsstring" where
  "toString_utf8 bs = concat (map utf16 (decode_utf8 bs))"

subsection \<open>\<^verbatim>\<open>Buffer.from(s, 'utf8')\<close>, and what \<^verbatim>\<open>hmac.update(s)\<close> hashes\<close>

text \<open>
  A string is encoded code point by code point: a high surrogate followed by a low one is
  one code point, any other surrogate is written as U+FFFD.
\<close>

definition is_high :: "code_unit \<Rightarrow> bool" where
  "is_high u = (0xD800 \<le> u \<and> u \<le> 0xDBFF)"

definition is_low :: "code_unit \<Rightarrow> bool" where
  "is_low u = (0xDC00 \<le> u \<and> u \<le> 0xDFFF)"

definition lone :: "code_unit \<Rightarrow> nat" where
  "lone u = (if is_high u \<or> is_low u then 0xFFFD else unat u)"

fun code_points :: "jsstring \<Rightarrow> nat list" where
  "code_points [] = []"
| "code_points [u] = [lone u]"
| "code_points (u # v # us) =
     (if is_high u \<and> is_low v
      then (0x10000 + (unat u - 0xD800) * 0x400 + (unat v - 0xDC00)) # code_points us
      else lone u # code_points (v # us))"

definition encode_utf8 :: "nat \<Rightarrow> bytes" where
  "encode_utf8 n =
     (if n < 0x80 then [char_of n]
      else if n < 0x800 then [char_of (0xC0 + n div 64), char_of (0x80 + n mod 64)]
      else if n < 0x10000 then
        [char_of (0xE0 + n div 4096), char_of (0x80 + n div 64 mod 64), char_of (0x80 + n mod 64)]
      else
        [char_of (0xF0 + n div 262144), char_of (0x80 + n div 4096 mod 64),
         char_of (0x80 + n div 64 mod 64), char_of (0x80 + n mod 64)])"

definition Buffer_from_utf8 :: "jsstring \<Rightarrow> bytes" where
  "Buffer_from_utf8 s = concat (map encode_utf8 (code_points s))"

text \<open>
  Well-formed UTF-8, as the Unicode Standard defines it (Table 3-7), and the scalar values
  it encodes. Text sent by a provider that serialises JSON is of this kind.
\<close>

fun well_formed_utf8 :: "bytes \<Rightarrow> bool" where
  "well_formed_utf8 [] = True"
| "well_formed_utf8 (b0 # bs) =
     (let n0 = of_char b0 :: nat in
      if n0 < 0x80 then well_formed_utf8 bs
      else if 0xC2 \<le> n0 \<and> n0 \<le> 0xDF then
        (case bs of b1 # r \<Rightarrow> cont b1 \<and> well_formed_utf8 r | _ \<Rightarrow> False)
      else if 0xE0 \<le> n0 \<and> n0 \<le> 0xEF then
        (case bs of
           b1 # b2 # r \<Rightarrow> second3 n0 b1 \<and> cont b2 \<and> well_formed_utf8 r
         | _ \<Rightarrow> False)
      else if 0xF0 \<le> n0 \<and> n0 \<le> 0xF4 then
        (case bs of
           b1 # b2 # b3 # r \<Rightarrow> second4 n0 b1 \<and> cont b2 \<and> cont b3 \<and> well_formed_utf8 r
         | _ \<Rightarrow> False)
      else False)"

definition scalar :: "nat \<Rightarrow> bool" where
  "scalar n = (n < 0x110000 \<and> \<not> (0xD800 \<le> n \<and> n \<le> 0xDFFF))"

section \<open>\<^verbatim>\<open>crypto.createHmac('sha256', key).update(data).digest('hex')\<close>\<close>

text \<open>
  SHA-256 (FIPS 180-4) on 32-bit words, held as integers with the wrap-around written
  out, and HMAC (RFC 2104) over it with the block size of 64 bytes. A string key and
  string data are hashed as their UTF-8 bytes.
\<close>

type_synonym u32 = int

definition add32 :: "u32 \<Rightarrow> u32 \<Rightarrow> u32" where
  "add32 x y = (x + y) mod 2 ^ 32"

definition rotr :: "nat \<Rightarrow> u32 \<Rightarrow> u32" where
  "rotr n x = x div 2 ^ n + (x mod 2 ^ n) * 2 ^ (32 - n)"

definition shr :: "nat \<Rightarrow> u32 \<Rightarrow> u32" where
  "shr n x = x div 2 ^ n"

definition Ch :: "u32 \<Rightarrow> u32 \<Rightarrow> u32 \<Rightarrow> u32" where
  "Ch x y z = (x AND y) XOR ((2 ^ 32 - 1 - x) AND z)"

definition Maj :: "u32 \<Rightarrow> u32 \<Rightarrow> u32 \<Rightarrow> u32" where
  "Maj x y z = (x AND y) XOR (x AND z) XOR (y AND z)"

definition Sigma0 :: "u32 \<Rightarrow> u32" where
  "Sigma0 x = rotr 2 x XOR rotr 13 x XOR rotr 22 x"

definition Sigma1 :: "u32 \<Rightarrow> u32" where
  "Sigma1 x = rotr 6 x XOR rotr 11 x XOR rotr 25 x"

definition sigma0 :: "u32 \<Rightarrow> u32" where
  "sigma0 x = rotr 7 x XOR rotr 18 x XOR shr 3 x"

definition sigma1 :: "u32 \<Rightarrow> u32" where
  "sigma1 x = rotr 17 x XOR rotr 19 x XOR shr 10 x"

definition K256 :: "u32 list" where
  "K256 = [
   0x428A2F98, 0x71374491, 0xB5C0FBCF, 0xE9B5DBA5, 0x3956C25B, 0x59F111F1, 0x923F82A4, 0xAB1C5ED5,
   0xD807AA98, 0x12835B01, 0x243185BE, 0x550C7DC3, 0x72BE5D74, 0x80DEB1FE, 0x9BDC06A7, 0xC19BF174,
   0xE49B69C1, 0xEFBE4786, 0x0FC19DC6, 0x240CA1CC, 0x2DE92C6F, 0x4A7484AA, 0x5CB0A9DC, 0x76F988DA,
   0x983E5152, 0xA831C66D, 0xB00327C8, 0xBF597FC7, 0xC6E00BF3, 0xD5A79147, 0x06CA6351, 0x14292967,
   0x27B70A85, 0x2E1B2138, 0x4D2C6DFC, 0x53380D13, 0x650A7354, 0x766A0ABB, 0x81C2C92E, 0x92722C85,
   0xA2BFE8A1, 0xA81A664B, 0xC24B8B70, 0xC76C51A3, 0xD192E819, 0xD6990624, 0xF40E3585, 0x106AA070,
   0x19A4C116, 0x1E376C08, 0x2748774C, 0x34B0BCB5, 0x391C0CB3, 0x4ED8AA4A, 0x5B9CCA4F, 0x682E6FF3,
   0x748F82EE, 0x78A5636F, 0x84C87814, 0x8CC70208, 0x90BEFFFA, 0xA4506CEB, 0xBEF9A3F7, 0xC67178F2]"

type_synonym state256 = "u32 \<times> u32 \<times> u32 \<times> u32 \<times> u32 \<times> u32 \<times> u32 \<times> u32"

definition H0 :: state256 where
  "H0 = (0x6A09E667, 0xBB67AE85, 0x3C6EF372, 0xA54FF53A,
         0x510E527F, 0x9B05688C, 0x1F83D9AB, 0x5BE0CD19)"

fun be_words :: "bytes \<Rightarrow> u32 list" where
  "be_words (a # b # c # d # bs) =
     (((of_char a * 256 + of_char b) * 256 + of_char c) * 256 + of_char d) # be_words bs"
| "be_words _ = []"

fun schedule :: "nat \<Rightarrow> u32 list \<Rightarrow> u32 list" where
  "schedule 0 ws = []"
| "schedule (Suc n) (w0 # w1 # w2 # w3 # w4 # w5 # w6 # w7 # w8 # w9 # w10 # w11 # w12 # w13
                       # w14 # w15 # _) =
     w0 # schedule n [w1, w2, w3, w4, w5, w6, w7, w8, w9, w10, w11, w12, w13, w14, w15,
                      add32 (add32 (add32 (sigma1 w14) w9) (sigma0 w1)) w0]"
| "schedule (Suc n) ws = ws"

fun round256 :: "state256 \<Rightarrow> u32 \<times> u32 \<Rightarrow> state256" where
  "round256 (a, b, c, d, e, f, g, h) (k, w) =
     (let t1 = add32 (add32 (add32 (add32 h (Sigma1 e)) (Ch e f g)) k) w;
          t2 = add32 (Sigma0 a) (Maj a b c)
      in (add32 t1 t2, a, b, c, add32 d t1, e, f, g))"

fun add_state :: "state256 \<Rightarrow> state256 \<Rightarrow> state256" where
  "add_state (a, b, c, d, e, f, g, h) (a', b', c', d', e', f', g', h') =
     (add32 a a', add32 b b', add32 c c', add32 d d',
      add32 e e', add32 f f', add32 g g', add32 h h')"

definition compress :: "state256 \<Rightarrow> bytes \<Rightarrow> state256" where
  "compress hs block = add_state hs (foldl round256 hs (zip K256 (schedule 64 (be_words block))))"

fun blocks :: "nat \<Rightarrow> bytes \<Rightarrow> bytes list" where
  "blocks 0 bs = []"
| "blocks (Suc n) bs = take 64 bs # blocks n (drop 64 bs)"

definition be_bytes :: "nat \<Rightarrow> int \<Rightarrow> bytes" where
  "be_bytes n x = map (\<lambda>i. char_of (x div 256 ^ (n - 1 - i))) [0..<n]"

definition pad :: "bytes \<Rightarrow> bytes" where
  "pad m = m @ [CHR 0x80] @ replicate ((119 - length m mod 64) mod 64) (CHR 0x00)
             @ be_bytes 8 (8 * int (length m))"

fun state_bytes :: "state256 \<Rightarrow> bytes" where
  "state_bytes (a, b, c, d, e, f, g, h) =
     be_bytes 4 a @ be_bytes 4 b @ be_bytes 4 c @ be_bytes 4 d
       @ be_bytes 4 e @ be_bytes 4 f @ be_bytes 4 g @ be_bytes 4 h"

definition sha256 :: "bytes \<Rightarrow> bytes" where
  "sha256 m = (let p = pad m in state_bytes (foldl compress H0 (blocks (length p div 64) p)))"

definition xor_pad :: "int \<Rightarrow> bytes \<Rightarrow> bytes" where
  "xor_pad p k = map (\<lambda>b. char_of ((of_char b :: int) XOR p)) k"

definition hmac_sha256 :: "bytes \<Rightarrow> bytes \<Rightarrow> bytes" where
  "hmac_sha256 key m =
     (let k0 = (if length key > 64 then sha256 key else key);
          k = k0 @ replicate (64 - length k0) (CHR 0x00)
      in sha256 (xor_pad 0x5c k @ sha256 (xor_pad 0x36 k @ m)))"

text \<open>Two hexadecimal digits per byte; \<^verbatim>\<open>digest('hex')\<close> writes them in lower case.\<close>

definition hex_with :: "string \<Rightarrow> bytes \<Rightarrow> string" where
  "hex_with ds bs = concat (map (\<lambda>b. [ds ! (of_char b div 16), ds ! (of_char b mod 16)]) bs)"

definition hex :: "bytes \<Rightarrow> string" where
  "hex = hex_with ''0123456789abcdef''"

definition hmac_digest_hex :: "jsstring \<Rightarrow> jsstring \<Rightarrow> jsstring" where
  "hmac_digest_hex key data = js (hex (hmac_sha256 (Buffer_from_utf8 key) (Buffer_from_utf8 data)))"

section \<open>\<^verbatim>\<open>JSON.parse\<close>\<close>

text \<open>
  The values a JSON text denotes. A number keeps the characters of its literal: the
  handler never computes with one. An object keeps its members in the order of the text,
  and a name that occurs twice stands for its last value.
\<close>

datatype json =
    JNull
  | JBool bool
  | JNumber jsstring
  | JString jsstring
  | JArray "json list"
  | JObject "(jsstring \<times> json) list"

text \<open>
  The grammar of ECMA-404, which \<^verbatim>\<open>JSON.parse\<close> accepts and nothing else: white space is
  the space, the tab, the line feed and the carriage return.
\<close>

definition is_ws :: "code_unit \<Rightarrow> bool" where
  "is_ws c = (c = 0x20 \<or> c = 0x09 \<or> c = 0x0A \<or> c = 0x0D)"

definition is_digit :: "code_unit \<Rightarrow> bool" where
  "is_digit c = (0x30 \<le> c \<and> c \<le> 0x39)"

fun skip_ws :: "jsstring \<Rightarrow> jsstring" where
  "skip_ws [] = []"
| "skip_ws (c # cs) = (if is_ws c then skip_ws cs else c # cs)"

text \<open>
  A string, read from behind its opening quote to its closing one: no control character,
  the escapes \<^verbatim>\<open>\" \\ \/ \b \f \n \r \t\<close>, and \<^verbatim>\<open>\u\<close> with four hexadecimal digits for one
  code unit. The result is the string and the text behind it.
\<close>

definition hex_value :: "code_unit \<Rightarrow> code_unit option" where
  "hex_value c =
     (if 0x30 \<le> c \<and> c \<le> 0x39 then Some (c - 0x30)
      else if 0x41 \<le> c \<and> c \<le> 0x46 then Some (c - 0x37)
      else if 0x61 \<le> c \<and> c \<le> 0x66 then Some (c - 0x57)
      else None)"

definition unicode_escape ::
  "code_unit \<Rightarrow> code_unit \<Rightarrow> code_unit \<Rightarrow> code_unit \<Rightarrow> code_unit option" where
  "unicode_escape h1 h2 h3 h4 =
     (case (hex_value h1, hex_value h2, hex_value h3, hex_value h4) of
        (Some x, Some y, Some z, Some w) \<Rightarrow> Some (((x * 16 + y) * 16 + z) * 16 + w)
      | _ \<Rightarrow> None)"

definition simple_escape :: "code_unit \<Rightarrow> code_unit option" where
  "simple_escape c =
     (if c = 0x22 then Some 0x22
      else if c = 0x5C then Some 0x5C
      else if c = 0x2F then Some 0x2F
      else if c = 0x62 then Some 0x08
      else if c = 0x66 then Some 0x0C
      else if c = 0x6E then Some 0x0A
      else if c = 0x72 then Some 0x0D
      else if c = 0x74 then Some 0x09
      else None)"

definition cons_char ::
  "code_unit \<Rightarrow> (jsstring \<times> jsstring) option \<Rightarrow> (jsstring \<times> jsstring) option" where
  "cons_char c r = (case r of None \<Rightarrow> None | Some (s, rest) \<Rightarrow> Some (c # s, rest))"

fun string_chars :: "jsstring \<Rightarrow> (jsstring \<times> jsstring) option" where
  "string_chars [] = None"
| "string_chars (c # cs) =
     (if c = 0x22 then Some ([], cs)
      else if c = 0x5C then
        (case cs of
           [] \<Rightarrow> None
         | e # cs1 \<Rightarrow>
             if e = 0x75 then
               (case cs1 of
                  h1 # h2 # h3 # h4 # cs2 \<Rightarrow>
                    (case unicode_escape h1 h2 h3 h4 of
                       None \<Rightarrow> None
                     | Some u \<Rightarrow> cons_char u (string_chars cs2))
                | _ \<Rightarrow> None)
             else
               (case simple_escape e of
                  None \<Rightarrow> None
                | Some u \<Rightarrow> cons_char u (string_chars cs1)))
      else if c < 0x20 then None
      else cons_char c (string_chars cs))"

text \<open>
  A number: an optional minus, an integer part without a leading zero, an optional
  fraction and an optional exponent. The result is the literal and the text behind it.
\<close>

definition digits :: "jsstring \<Rightarrow> jsstring \<times> jsstring" where
  "digits cs = (takeWhile is_digit cs, dropWhile is_digit cs)"

definition int_part :: "jsstring \<Rightarrow> (jsstring \<times> jsstring) option" where
  "int_part cs =
     (case cs of
        [] \<Rightarrow> None
      | c # r \<Rightarrow>
          if c = 0x30 then Some ([c], r)
          else if is_digit c then Some (c # fst (digits r), snd (digits r))
          else None)"

definition frac_part :: "jsstring \<Rightarrow> (jsstring \<times> jsstring) option" where
  "frac_part cs =
     (case cs of
        c # r \<Rightarrow>
          if c = 0x2E then
            (if fst (digits r) = [] then None else Some (c # fst (digits r), snd (digits r)))
          else Some ([], cs)
      | [] \<Rightarrow> Some ([], cs))"

definition exp_digits :: "jsstring \<Rightarrow> jsstring \<Rightarrow> (jsstring \<times> jsstring) option" where
  "exp_digits pre r =
     (if fst (digits r) = [] then None else Some (pre @ fst (digits r), snd (digits r)))"

definition exp_part :: "jsstring \<Rightarrow> (jsstring \<times> jsstring) option" where
  "exp_part cs =
     (case cs of
        c # r \<Rightarrow>
          if c = 0x65 \<or> c = 0x45 then
            (case r of
               s # r1 \<Rightarrow> if s = 0x2B \<or> s = 0x2D then exp_digits [c, s] r1 else exp_digits [c] r
             | [] \<Rightarrow> None)
          else Some ([], cs)
      | [] \<Rightarrow> Some ([], cs))"

definition number_token :: "jsstring \<Rightarrow> (jsstring \<times> jsstring) option" where
  "number_token cs =
     (let (sign, cs0) =
            (case cs of c # r \<Rightarrow> if c = 0x2D then ([c], r) else ([], cs) | [] \<Rightarrow> ([], cs))
      in case int_part cs0 of
           None \<Rightarrow> None
         | Some (i, cs1) \<Rightarrow>
             (case frac_part cs1 of
                None \<Rightarrow> None
              | Some (f, cs2) \<Rightarrow>
                  (case exp_part cs2 of
                     None \<Rightarrow> None
                   | Some (e, cs3) \<Rightarrow> Some (sign @ i @ f @ e, cs3))))"

text \<open>The values that are not arrays or objects.\<close>

definition literal :: "string \<Rightarrow> json \<Rightarrow> jsstring \<Rightarrow> (json \<times> jsstring) option" where
  "literal w v cs = (if take (length w) cs = js w then Some (v, drop (length w) cs) else None)"

definition scalar_value :: "jsstring \<Rightarrow> (json \<times> jsstring) option" where
  "scalar_value cs =
     (case cs of
        [] \<Rightarrow> None
      | c # r \<Rightarrow>
          if c = 0x22 then map_option (\<lambda>(s, rest). (JString s, rest)) (string_chars r)
          else if c = 0x74 then literal ''true'' (JBool True) cs
          else if c = 0x66 then literal ''false'' (JBool False) cs
          else if c = 0x6E then literal ''null'' JNull cs
          else map_option (\<lambda>(n, rest). (JNumber n, rest)) (number_token cs))"

text \<open>
  A value; the elements of an array, from behind its bracket or a comma; the members of an
  object, from behind its brace or a comma. Each result is the value and the text behind
  it.
\<close>

function parse_value :: "jsstring \<Rightarrow> (json \<times> jsstring) option"
  and parse_elements :: "json list \<Rightarrow> jsstring \<Rightarrow> (json \<times> jsstring) option"
  and parse_members :: "(jsstring \<times> json) list \<Rightarrow> jsstring \<Rightarrow> (json \<times> jsstring) option"
where
  "parse_value cs =
     (case skip_ws cs of
        [] \<Rightarrow> None
      | c # r \<Rightarrow>
          if c = 0x5B then
            (case skip_ws r of
               [] \<Rightarrow> None
             | d # r1 \<Rightarrow> if d = 0x5D then Some (JArray [], r1) else parse_elements [] r)
          else if c = 0x7B then
            (case skip_ws r of
               [] \<Rightarrow> None
             | d # r1 \<Rightarrow> if d = 0x7D then Some (JObject [], r1) else parse_members [] r)
          else scalar_value (c # r))"
| "parse_elements acc cs =
     (case parse_value cs of
        None \<Rightarrow> None
      | Some (v, rest) \<Rightarrow>
          if length rest < length cs then
            (case skip_ws rest of
               [] \<Rightarrow> None
             | d # r \<Rightarrow>
                 if d = 0x2C then parse_elements (acc @ [v]) r
                 else if d = 0x5D then Some (JArray (acc @ [v]), r)
                 else None)
          else None)"
| "parse_members acc cs =
     (case skip_ws cs of
        [] \<Rightarrow> None
      | q # cs1 \<Rightarrow>
          if q = 0x22 then
            (case string_chars cs1 of
               None \<Rightarrow> None
             | Some (k, cs2) \<Rightarrow>
                 (case skip_ws cs2 of
                    [] \<Rightarrow> None
                  | colon # cs3 \<Rightarrow>
                      if colon = 0x3A then
                        (case parse_value cs3 of
                           None \<Rightarrow> None
                         | Some (v, rest) \<Rightarrow>
                             if length rest < length cs3 then
                               (case skip_ws rest of
                                  [] \<Rightarrow> None
                                | d # r \<Rightarrow>
                                    if d = 0x2C then parse_members (acc @ [(k, v)]) r
                                    else if d = 0x7D then Some (JObject (acc @ [(k, v)]), r)
                                    else None)
                             else None)
                      else None))
          else None)"
  by pat_completeness auto
termination
proof -
  have ws: "length (skip_ws cs) \<le> length cs" for cs
    by (induction cs) auto
  have tl: "length r < length cs" if "skip_ws cs = c # r" for cs c r
    using ws [of cs] that by simp
  have sc: "length rest < length cs" if "string_chars cs = Some (s, rest)" for cs s rest
    using that
    by (induction cs arbitrary: s rest rule: string_chars.induct)
       (auto simp: cons_char_def split: if_splits list.splits option.splits, force+)
  show ?thesis
    apply (relation "measure (\<lambda>x. case x of Inl cs \<Rightarrow> 2 * length cs
                                        | Inr (Inl (acc, cs)) \<Rightarrow> 2 * length cs + 1
                                        | Inr (Inr (acc, cs)) \<Rightarrow> 2 * length cs + 1)")
    apply (auto dest!: tl sc)
    done
qed

text \<open>A JSON text is one value with nothing but white space behind it.\<close>

definition parse_text :: "jsstring \<Rightarrow> json option" where
  "parse_text t =
     (case parse_value t of
        None \<Rightarrow> None
      | Some (v, rest) \<Rightarrow> if skip_ws rest = [] then Some v else None)"

text \<open>
  The guard on the length behind a value is always true (\<open>parse_value_shorter\<close> below, and
  the same functions without it in \<open>parse_elements_unguarded\<close> and
  \<open>parse_members_unguarded\<close>); it makes the recursion visibly well founded.
\<close>

declare parse_value.simps [simp del] parse_elements.simps [simp del] parse_members.simps [simp del]

section \<open>The request and the runtime\<close>

text \<open>
  Of a request the handler reads the method, the header \<^verbatim>\<open>x-signature\<close> and, through
  \<^verbatim>\<open>buffer\<close> of micro, the body; micro reads the headers \<^verbatim>\<open>content-type\<close> and
  \<^verbatim>\<open>content-length\<close> as well.
\<close>

record request =
  req_method :: jsstring
  content_type :: "jsstring option" \<comment> \<open>\<^verbatim>\<open>req.headers['content-type']\<close>\<close>
  content_length :: "nat option" \<comment> \<open>\<^verbatim>\<open>req.headers['content-length']\<close>, a decimal number\<close>
  x_signature :: "jsstring option" \<comment> \<open>\<^verbatim>\<open>req.headers['x-signature']\<close>\<close>
  req_body :: bytes \<comment> \<open>the bytes that arrive\<close>

text \<open>
  What the handler reads but the repository does not fix: what \<^verbatim>\<open>await buffer(req)\<close> comes
  to, the message texts of the errors that Node and the engine raise, and how a number is
  printed. Every theorem below that is not about an example holds for every runtime. An
  error raised by a library call is an instance of \<^verbatim>\<open>Error\<close>. The depth of the engine's stack
  is outside the model.
\<close>

type_synonym js_value = "json option" \<comment> \<open>\<open>None\<close> is \<^verbatim>\<open>undefined\<close>\<close>

datatype engine_error =
    ERR_INVALID_ARG_TYPE \<comment> \<open>\<^verbatim>\<open>Buffer.from(undefined, 'utf8')\<close>\<close>
  | ERR_CRYPTO_TIMING_SAFE_EQUAL_LENGTH \<comment> \<open>buffers of different byte lengths\<close>
  | JSON_SyntaxError jsstring \<comment> \<open>the text that is not JSON\<close>
  | Destructure_TypeError string js_value \<comment> \<open>the property destructured, and its value\<close>
  | ToPrimitive_TypeError \<comment> \<open>an object with no usable \<^verbatim>\<open>toString\<close>\<close>

datatype thrown =
    Thrown_string jsstring \<comment> \<open>\<^verbatim>\<open>typeof e === 'string'\<close>\<close>
  | Thrown_Error jsstring \<comment> \<open>\<^verbatim>\<open>e instanceof Error\<close>, with \<^verbatim>\<open>e.message\<close>\<close>
  | Thrown_other \<comment> \<open>any other value\<close>

text \<open>
  The promise of \<^verbatim>\<open>buffer(req)\<close> is rejected, or it resolves to one of two kinds of value.
  micro hands the charset of the \<^verbatim>\<open>Content-Type\<close> header to raw-body as the encoding:
  without a charset the value is a \<^verbatim>\<open>Buffer\<close>, with one it is the string that the charset
  decoded, although the type of \<^verbatim>\<open>buffer\<close> names a \<^verbatim>\<open>Buffer\<close> only.
\<close>

datatype buffered =
    Body_Buffer bytes
  | Body_string jsstring

record runtime =
  buffer :: "request \<Rightarrow> thrown + buffered"
  error_message :: "engine_error \<Rightarrow> jsstring"
  number_text :: "jsstring \<Rightarrow> jsstring"

text \<open>
  \<^verbatim>\<open>.toString('utf-8')\<close> of line 47: a \<^verbatim>\<open>Buffer\<close> is decoded, and the method of a string
  ignores its argument and returns the string.
\<close>

definition toString :: "buffered \<Rightarrow> jsstring" where
  "toString body = (case body of Body_Buffer b \<Rightarrow> toString_utf8 b | Body_string s \<Rightarrow> s)"

definition raise :: "runtime \<Rightarrow> engine_error \<Rightarrow> thrown + 'a" where
  "raise rt e = Inl (Thrown_Error (error_message rt e))"

definition Buffer_from :: "runtime \<Rightarrow> jsstring option \<Rightarrow> thrown + bytes" where
  "Buffer_from rt v =
     (case v of None \<Rightarrow> raise rt ERR_INVALID_ARG_TYPE | Some s \<Rightarrow> Inr (Buffer_from_utf8 s))"

definition timingSafeEqual :: "runtime \<Rightarrow> bytes \<Rightarrow> bytes \<Rightarrow> thrown + bool" where
  "timingSafeEqual rt a b =
     (if length a \<noteq> length b then raise rt ERR_CRYPTO_TIMING_SAFE_EQUAL_LENGTH else Inr (a = b))"

definition JSON_parse :: "runtime \<Rightarrow> jsstring \<Rightarrow> thrown + json" where
  "JSON_parse rt t =
     (case parse_text t of None \<Rightarrow> raise rt (JSON_SyntaxError t) | Some v \<Rightarrow> Inr v)"

text \<open>
  Reading a property. The names the handler reads (\<^verbatim>\<open>meta\<close>, \<^verbatim>\<open>event_name\<close>,
  \<^verbatim>\<open>custom_data\<close>, \<^verbatim>\<open>userId\<close>, \<^verbatim>\<open>data\<close>, \<^verbatim>\<open>id\<close>, \<^verbatim>\<open>attributes\<close>, \<^verbatim>\<open>identifier\<close>) are
  properties of no prototype and of no array or string, so a value that is not an object
  with such a member reads as \<^verbatim>\<open>undefined\<close>.
\<close>

definition get :: "js_value \<Rightarrow> string \<Rightarrow> js_value" where
  "get v k = (case v of Some (JObject kvs) \<Rightarrow> map_of (rev kvs) (js k) | _ \<Rightarrow> None)"

definition nullish :: "js_value \<Rightarrow> bool" where
  "nullish v = (v = None \<or> v = Some JNull)"

text \<open>
  A substitution of a template literal. An array is its elements joined by commas, with
  \<^verbatim>\<open>null\<close> printed as nothing; an object is \<^verbatim>\<open>[object Object]\<close> unless a member named
  \<^verbatim>\<open>toString\<close> hides the inherited method, and then the conversion raises.
\<close>

fun ToString :: "runtime \<Rightarrow> json \<Rightarrow> thrown + jsstring"
  and join :: "runtime \<Rightarrow> json list \<Rightarrow> thrown + jsstring"
where
  "ToString rt JNull = Inr (js ''null'')"
| "ToString rt (JBool b) = Inr (js (if b then ''true'' else ''false''))"
| "ToString rt (JNumber n) = Inr (number_text rt n)"
| "ToString rt (JString s) = Inr s"
| "ToString rt (JArray vs) = join rt vs"
| "ToString rt (JObject kvs) =
     (if js ''toString'' \<in> set (map fst kvs) then raise rt ToPrimitive_TypeError
      else Inr (js ''[object Object]''))"
| "join rt [] = Inr []"
| "join rt [v] = (if v = JNull then Inr [] else ToString rt v)"
| "join rt (v # w # vs) =
     (case (if v = JNull then Inr [] else ToString rt v) of
        Inl e \<Rightarrow> Inl e
      | Inr s \<Rightarrow> (case join rt (w # vs) of Inl e \<Rightarrow> Inl e | Inr t \<Rightarrow> Inr (s @ js '','' @ t)))"

definition substitution :: "runtime \<Rightarrow> js_value \<Rightarrow> thrown + jsstring" where
  "substitution rt v = (case v of None \<Rightarrow> Inr (js ''undefined'') | Some j \<Rightarrow> ToString rt j)"

section \<open>The handler\<close>

datatype reply =
    Message jsstring \<comment> \<open>\<^verbatim>\<open>{ message: ... }\<close>\<close>
  | Received \<comment> \<open>\<^verbatim>\<open>{ received: true }\<close>\<close>

datatype outcome =
    Responded nat reply \<comment> \<open>the status and the JSON body\<close>
  | Uncaught thrown \<comment> \<open>the handler's promise rejects\<close>

text \<open>The library calls of the \<^verbatim>\<open>try\<close> block that a claim is about, in the order made.\<close>

datatype call =
    Hmac_update jsstring
  | Timing_safe_equal bytes bytes
  | Json_parse jsstring

text \<open>\<^verbatim>\<open>process.env.LEMON_SQUEEZY_WEBHOOK_SECRET || ''\<close>\<close>

definition signingSecret :: "jsstring option \<Rightarrow> jsstring" where
  "signingSecret env = (case env of None \<Rightarrow> js '''' | Some s \<Rightarrow> if s = [] then js '''' else s)"

text \<open>
  Lines 60 to 70: the nested pattern reads \<^verbatim>\<open>meta\<close>, then \<^verbatim>\<open>event_name\<close> and
  \<^verbatim>\<open>custom_data\<close> of it, then \<^verbatim>\<open>userId\<close>, then \<^verbatim>\<open>data\<close>, \<^verbatim>\<open>id\<close>, \<^verbatim>\<open>attributes\<close> and
  \<^verbatim>\<open>identifier\<close>; a pattern applied to \<^verbatim>\<open>undefined\<close> or \<^verbatim>\<open>null\<close> raises a TypeError.
  The result is \<open>(eventName, userId, orderId, identifier)\<close>.
\<close>

definition destructure ::
  "runtime \<Rightarrow> json \<Rightarrow> thrown + (js_value \<times> js_value \<times> js_value \<times> js_value)" where
  "destructure rt payload =
     (if nullish (Some payload) then raise rt (Destructure_TypeError ''payload'' (Some payload))
      else
        let meta = get (Some payload) ''meta'' in
        if nullish meta then raise rt (Destructure_TypeError ''meta'' meta)
        else
          let eventName = get meta ''event_name'';
              custom_data = get meta ''custom_data''
          in
          if nullish custom_data then raise rt (Destructure_TypeError ''custom_data'' custom_data)
          else
            let userId = get custom_data ''userId'';
                data = get (Some payload) ''data''
            in
            if nullish data then raise rt (Destructure_TypeError ''data'' data)
            else
              let orderId = get data ''id'';
                  attributes = get data ''attributes''
              in
              if nullish attributes then raise rt (Destructure_TypeError ''attributes'' attributes)
              else Inr (eventName, userId, orderId, get attributes ''identifier''))"

text \<open>
  Lines 72 to 92. \<open>None\<close> is a branch that falls out of the \<^verbatim>\<open>try\<close> block; the last
  branch returns the response it sent.
\<close>

definition is_string :: "js_value \<Rightarrow> string \<Rightarrow> bool" where
  "is_string v s = (v = Some (JString (js s)))"

definition dispatch ::
  "runtime \<Rightarrow> js_value \<Rightarrow> js_value \<Rightarrow> js_value \<Rightarrow> thrown + outcome option" where
  "dispatch rt eventName identifier orderId =
     (if is_string eventName ''order_created'' then Inr None
      else if is_string eventName ''order_refunded'' then Inr None
      else if is_string eventName '''' then Inr None
      else
        case substitution rt eventName of
          Inl e \<Rightarrow> Inl e
        | Inr name \<Rightarrow>
            (case substitution rt identifier of
               Inl e \<Rightarrow> Inl e
             | Inr ident \<Rightarrow>
                 (case substitution rt orderId of
                    Inl e \<Rightarrow> Inl e
                  | Inr ord \<Rightarrow>
                      Inr (Some (Responded 400 (Message
                        (js ''Unknown event name: '' @ name @ js '' for order: '' @ ident
                           @ js '' ('' @ ord @ js '')'')))))))"

text \<open>Lines 58 to 92: what follows a signature that was accepted.\<close>

definition after_verification :: "runtime \<Rightarrow> jsstring \<Rightarrow> thrown + outcome option" where
  "after_verification rt rawBody =
     (case JSON_parse rt rawBody of
        Inl e \<Rightarrow> Inl e
      | Inr payload \<Rightarrow>
          (case destructure rt payload of
             Inl e \<Rightarrow> Inl e
           | Inr (eventName, userId, orderId, identifier) \<Rightarrow>
               dispatch rt eventName identifier orderId))"

text \<open>
  Lines 46 to 92, with the calls made. When the promise of \<^verbatim>\<open>buffer(req)\<close> is rejected the
  \<^verbatim>\<open>await\<close> of line 47 throws, before anything is hashed.
\<close>

definition try_block ::
  "runtime \<Rightarrow> jsstring \<Rightarrow> request \<Rightarrow> call list \<times> (thrown + outcome option)" where
  "try_block rt secret req =
     (case buffer rt req of
        Inl e \<Rightarrow> ([], Inl e)
      | Inr body \<Rightarrow>
          let rawBody = toString body;
              digest = Buffer_from_utf8 (hmac_digest_hex secret rawBody)
          in
          case Buffer_from rt (x_signature req) of
            Inl e \<Rightarrow> ([Hmac_update rawBody], Inl e)
          | Inr signature \<Rightarrow>
              (case timingSafeEqual rt digest signature of
                 Inl e \<Rightarrow> ([Hmac_update rawBody, Timing_safe_equal digest signature], Inl e)
               | Inr equal \<Rightarrow>
                   if \<not> equal then
                     ([Hmac_update rawBody, Timing_safe_equal digest signature],
                      Inr (Some (Responded 400 (Message (js ''Invalid signature.'')))))
                   else
                     ([Hmac_update rawBody, Timing_safe_equal digest signature,
                       Json_parse rawBody],
                      after_verification rt rawBody)))"

text \<open>Lines 93 to 105.\<close>

definition catch_block :: "thrown \<Rightarrow> outcome" where
  "catch_block e =
     (case e of
        Thrown_string s \<Rightarrow> Responded 400 (Message (js ''Webhook error: '' @ s))
      | Thrown_Error m \<Rightarrow> Responded 400 (Message (js ''Webhook error: '' @ m))
      | Thrown_other \<Rightarrow> Uncaught e)"

text \<open>
  The handler: the calls it made and how the request ended. What the \<^verbatim>\<open>try\<close> block threw
  goes to the \<^verbatim>\<open>catch\<close> block, a response it returned stands, and when it ran to its end
  line 108 answers; \<^verbatim>\<open>res.send\<close> on a response whose status was never set answers 200.
\<close>

definition after_try :: "thrown + outcome option \<Rightarrow> outcome" where
  "after_try r =
     (case r of
        Inl e \<Rightarrow> catch_block e
      | Inr (Some sent) \<Rightarrow> sent
      | Inr None \<Rightarrow> Responded 200 Received)"

definition handler :: "runtime \<Rightarrow> jsstring option \<Rightarrow> request \<Rightarrow> call list \<times> outcome" where
  "handler rt env req =
     (if req_method req \<noteq> js ''POST'' then ([], Responded 405 (Message (js ''Method not allowed'')))
      else
        let (made, r) = try_block rt (signingSecret env) req
        in (made, after_try r))"

definition response :: "runtime \<Rightarrow> jsstring option \<Rightarrow> request \<Rightarrow> outcome" where
  "response rt env req = snd (handler rt env req)"

definition calls :: "runtime \<Rightarrow> jsstring option \<Rightarrow> request \<Rightarrow> call list" where
  "calls rt env req = fst (handler rt env req)"

section \<open>Notions the statements use\<close>

text \<open>
  The text \<^verbatim>\<open>rawBody\<close> of line 47, which the handler hashes and parses; there is none when
  the promise of \<^verbatim>\<open>buffer(req)\<close> was rejected.
\<close>

definition rawBody :: "runtime \<Rightarrow> request \<Rightarrow> jsstring option" where
  "rawBody rt req = (case buffer rt req of Inl e \<Rightarrow> None | Inr body \<Rightarrow> Some (toString body))"

text \<open>micro resolved to a \<^verbatim>\<open>Buffer\<close> that holds the bytes of the body as they arrived.\<close>

definition undecoded :: "runtime \<Rightarrow> request \<Rightarrow> bool" where
  "undecoded rt req = (buffer rt req = Inr (Body_Buffer (req_body req)))"

text \<open>The buffer \<^verbatim>\<open>digest\<close> of line 49, for the text of line 47.\<close>

definition digest :: "jsstring option \<Rightarrow> jsstring \<Rightarrow> bytes" where
  "digest env text = Buffer_from_utf8 (hmac_digest_hex (signingSecret env) text)"

text \<open>
  The comparison of line 52 succeeds: line 47 gave a text, the header is present and its
  bytes are the bytes of the digest.
\<close>

definition verified :: "runtime \<Rightarrow> jsstring option \<Rightarrow> request \<Rightarrow> bool" where
  "verified rt env req =
     (case rawBody rt req of
        None \<Rightarrow> False
      | Some text \<Rightarrow>
          (case x_signature req of
             None \<Rightarrow> False
           | Some s \<Rightarrow> Buffer_from_utf8 s = digest env text))"

text \<open>
  The signature of the provider: the HMAC-SHA256 of the bytes of the body under the
  secret, in lower-case hexadecimal.
\<close>

definition provider_signature :: "jsstring option \<Rightarrow> bytes \<Rightarrow> jsstring" where
  "provider_signature env b = js (hex (hmac_sha256 (Buffer_from_utf8 (signingSecret env)) b))"

text \<open>The same digest written with capital letters.\<close>

definition upper_signature :: "jsstring option \<Rightarrow> bytes \<Rightarrow> jsstring" where
  "upper_signature env b =
     js (hex_with ''0123456789ABCDEF'' (hmac_sha256 (Buffer_from_utf8 (signingSecret env)) b))"

text \<open>
  The shape \<^verbatim>\<open>ResBody['body']\<close> of lines 8 to 23, for any event name: objects where the
  interface has objects, strings where it has strings.
\<close>

definition is_object :: "js_value \<Rightarrow> bool" where
  "is_object v = (case v of Some (JObject _) \<Rightarrow> True | _ \<Rightarrow> False)"

definition string_of :: "js_value \<Rightarrow> jsstring option" where
  "string_of v = (case v of Some (JString s) \<Rightarrow> Some s | _ \<Rightarrow> None)"

definition event_name :: "json \<Rightarrow> js_value" where
  "event_name p = get (get (Some p) ''meta'') ''event_name''"

definition order_id :: "json \<Rightarrow> js_value" where
  "order_id p = get (get (Some p) ''data'') ''id''"

definition order_identifier :: "json \<Rightarrow> js_value" where
  "order_identifier p = get (get (get (Some p) ''data'') ''attributes'') ''identifier''"

definition well_formed_event :: "json \<Rightarrow> bool" where
  "well_formed_event p =
     (is_object (get (Some p) ''meta'')
      \<and> string_of (event_name p) \<noteq> None
      \<and> is_object (get (get (Some p) ''meta'') ''custom_data'')
      \<and> string_of (get (get (get (Some p) ''meta'') ''custom_data'') ''userId'') \<noteq> None
      \<and> is_object (get (Some p) ''data'')
      \<and> string_of (order_id p) \<noteq> None
      \<and> is_object (get (get (Some p) ''data'') ''attributes'')
      \<and> string_of (order_identifier p) \<noteq> None)"

text \<open>Bytes below 128: the text of a provider that escapes everything else.\<close>

definition ascii :: "bytes \<Rightarrow> bool" where
  "ascii b = list_all (\<lambda>c. (of_char c :: nat) < 0x80) b"

section \<open>\<^verbatim>\<open>buffer\<close> of micro\<close>

text \<open>
  The runtime of the examples reads a request as micro 10 does, with the packages it
  builds on: content-type 1.0 finds the charset in the header, raw-body 2 reads the body
  under the limit of \<^verbatim>\<open>1mb\<close>, iconv-lite 0.4 decodes it. None of this is code of the
  repository, and no theorem about every runtime depends on it. The body is one that
  arrived whole, on a stream that nothing has read before.
\<close>

subsection \<open>\<^verbatim>\<open>contentType.parse(type).parameters.charset\<close>\<close>

text \<open>
  A token is made of letters, digits and the fifteen marks that RFC 7230 allows in one.
  The media type is the text before the first semicolon, trimmed, and must be two tokens
  with a slash between them.
\<close>

definition tchar :: "code_unit \<Rightarrow> bool" where
  "tchar c =
     (c \<in> set [0x21, 0x23, 0x24, 0x25, 0x26, 0x27, 0x2A, 0x2B, 0x2D, 0x2E, 0x5E, 0x5F, 0x60,
               0x7C, 0x7E]
      \<or> is_digit c \<or> (0x41 \<le> c \<and> c \<le> 0x5A) \<or> (0x61 \<le> c \<and> c \<le> 0x7A))"

definition white_space :: "code_unit \<Rightarrow> bool" where
  "white_space c =
     (c \<in> set [0x09, 0x0A, 0x0B, 0x0C, 0x0D, 0x20, 0xA0, 0x1680, 0x2028, 0x2029, 0x202F,
               0x205F, 0x3000, 0xFEFF]
      \<or> (0x2000 \<le> c \<and> c \<le> 0x200A))"

definition trim :: "jsstring \<Rightarrow> jsstring" where
  "trim s = rev (dropWhile white_space (rev (dropWhile white_space s)))"

definition media_type :: "jsstring \<Rightarrow> bool" where
  "media_type t =
     (takeWhile tchar t \<noteq> []
      \<and> (case dropWhile tchar t of
            [] \<Rightarrow> False
          | c # subtype \<Rightarrow> c = 0x2F \<and> subtype \<noteq> [] \<and> list_all tchar subtype))"

text \<open>
  A quoted string, read behind its opening quote: the value without the backslashes of
  its escapes, and the text behind the closing quote.
\<close>

definition qdtext :: "code_unit \<Rightarrow> bool" where
  "qdtext c =
     (c = 0x0B \<or> c = 0x20 \<or> c = 0x21 \<or> (0x23 \<le> c \<and> c \<le> 0x5B) \<or> (0x5D \<le> c \<and> c \<le> 0x7E)
      \<or> (0x80 \<le> c \<and> c \<le> 0xFF))"

definition escaped :: "code_unit \<Rightarrow> bool" where
  "escaped c = (c = 0x0B \<or> (0x20 \<le> c \<and> c \<le> 0xFF))"

fun quoted_string :: "jsstring \<Rightarrow> (jsstring \<times> jsstring) option" where
  "quoted_string [] = None"
| "quoted_string (c # cs) =
     (if c = 0x22 then Some ([], cs)
      else if c = 0x5C then
        (case cs of
           [] \<Rightarrow> None
         | e # cs1 \<Rightarrow> if escaped e then cons_char e (quoted_string cs1) else None)
      else if qdtext c then cons_char c (quoted_string cs)
      else None)"

text \<open>
  One parameter at the start of a text: a semicolon, the name and the value, a token or a
  quoted string, with spaces allowed around each; the name is put in lower case. The
  result is the parameter and the text behind it.
\<close>

definition lower :: "code_unit \<Rightarrow> code_unit" where
  "lower c = (if 0x41 \<le> c \<and> c \<le> 0x5A then c + 0x20 else c)"

definition spaces :: "jsstring \<Rightarrow> jsstring" where
  "spaces s = dropWhile (\<lambda>c. c = 0x20) s"

definition parameter :: "jsstring \<Rightarrow> ((jsstring \<times> jsstring) \<times> jsstring) option" where
  "parameter s =
     (case s of
        [] \<Rightarrow> None
      | c # s1 \<Rightarrow>
          if c \<noteq> 0x3B then None
          else
            let name = takeWhile tchar (spaces s1);
                s2 = spaces (dropWhile tchar (spaces s1))
            in
            if name = [] then None
            else
              (case s2 of
                 [] \<Rightarrow> None
               | e # s3 \<Rightarrow>
                   if e \<noteq> 0x3D then None
                   else
                     (case spaces s3 of
                        [] \<Rightarrow> None
                      | q # s4 \<Rightarrow>
                          if q = 0x22 then
                            (case quoted_string s4 of
                               None \<Rightarrow> None
                             | Some (v, s5) \<Rightarrow> Some ((map lower name, v), spaces s5))
                          else if tchar q then
                            Some ((map lower name, takeWhile tchar (q # s4)),
                                  spaces (dropWhile tchar (q # s4)))
                          else None)))"

text \<open>
  The parameters follow each other to the end of the header; anything else there is an
  error. A parameter is longer than nothing, so the test on the lengths never fails.
\<close>

function parameters :: "jsstring \<Rightarrow> (jsstring \<times> jsstring) list option" where
  "parameters s =
     (if s = [] then Some []
      else
        case parameter s of
          None \<Rightarrow> None
        | Some (kv, rest) \<Rightarrow>
            if length rest < length s then map_option (Cons kv) (parameters rest) else None)"
  by pat_completeness auto

termination
  by (relation "measure length") auto

declare parameters.simps [simp del]

text \<open>
  The charset of a header: the error of a header that does not parse, or the value of the
  last parameter named \<^verbatim>\<open>charset\<close>, if there is one.
\<close>

definition charset :: "jsstring \<Rightarrow> thrown + jsstring option" where
  "charset header =
     (if \<not> media_type (trim (takeWhile (\<lambda>c. c \<noteq> 0x3B) header)) then
        Inl (Thrown_Error (js ''invalid media type''))
      else
        case parameters (dropWhile (\<lambda>c. c \<noteq> 0x3B) header) of
          None \<Rightarrow> Inl (Thrown_Error (js ''invalid parameter format''))
        | Some kvs \<Rightarrow> Inr (map_of (rev kvs) (js ''charset'')))"

subsection \<open>\<^verbatim>\<open>getRawBody(req, { limit, length, encoding })\<close>\<close>

text \<open>
  iconv-lite finds an encoding by its name in lower case without a year at its end
  (\<^verbatim>\<open>:1987\<close>) and without anything that is not a letter or a digit. The characters of a
  charset are below U+0100, where only the letters A to Z have a lower case among the
  letters a to z.
\<close>

definition without_year :: "jsstring \<Rightarrow> jsstring" where
  "without_year name =
     (case rev name of
        d4 # d3 # d2 # d1 # c # front \<Rightarrow>
          if c = 0x3A \<and> list_all is_digit [d1, d2, d3, d4] then rev front else name
      | _ \<Rightarrow> name)"

definition canonical :: "jsstring \<Rightarrow> jsstring" where
  "canonical name =
     filter (\<lambda>c. is_digit c \<or> (0x61 \<le> c \<and> c \<le> 0x7A)) (map lower (without_year name))"

text \<open>
  Three of its encodings. The decoders of UTF-8 and UTF-16 drop a byte order mark at the
  start; the one of UTF-16 drops a last byte that has no partner.
\<close>

definition strip_bom :: "jsstring \<Rightarrow> jsstring" where
  "strip_bom s = (case s of [] \<Rightarrow> [] | c # cs \<Rightarrow> if c = 0xFEFF then cs else s)"

fun utf16le :: "bytes \<Rightarrow> jsstring" where
  "utf16le (lo # hi # bs) = of_nat (of_char lo + 256 * of_char hi) # utf16le bs"
| "utf16le bs = []"

definition latin1 :: "bytes \<Rightarrow> jsstring" where
  "latin1 bs = map (\<lambda>b. of_nat (of_char b)) bs"

definition getDecoder :: "jsstring \<Rightarrow> (bytes \<Rightarrow> jsstring) option" where
  "getDecoder name =
     (let n = canonical name in
      if n = js ''utf8'' then Some (\<lambda>bs. strip_bom (toString_utf8 bs))
      else if n = js ''utf16le'' \<or> n = js ''ucs2'' then Some (\<lambda>bs. strip_bom (utf16le bs))
      else if n = js ''latin1'' \<or> n = js ''iso88591'' then Some latin1
      else None)"

text \<open>
  raw-body, in the order of its tests: a declared length over the limit, an encoding
  without a decoder, more bytes than the limit, and another number of bytes than the
  length declared. Without an encoding (none, or the empty name) the bytes are handed on
  in a \<^verbatim>\<open>Buffer\<close>.
\<close>

datatype raw_body_error = Entity_too_large | Encoding_unsupported | Size_invalid

definition limit :: int where
  "limit = 1048576"

definition decoder :: "jsstring option \<Rightarrow> raw_body_error + (bytes \<Rightarrow> jsstring) option" where
  "decoder encoding =
     (case encoding of
        None \<Rightarrow> Inr None
      | Some name \<Rightarrow>
          if name = [] then Inr None
          else
            (case getDecoder name of
               None \<Rightarrow> Inl Encoding_unsupported
             | Some decode \<Rightarrow> Inr (Some decode)))"

definition getRawBody :: "nat option \<Rightarrow> jsstring option \<Rightarrow> bytes \<Rightarrow> raw_body_error + buffered" where
  "getRawBody len encoding body =
     (if (case len of None \<Rightarrow> False | Some n \<Rightarrow> limit < int n) then Inl Entity_too_large
      else
        case decoder encoding of
          Inl e \<Rightarrow> Inl e
        | Inr decode \<Rightarrow>
            if limit < int (length body) then Inl Entity_too_large
            else if (case len of None \<Rightarrow> False | Some n \<Rightarrow> length body \<noteq> n) then Inl Size_invalid
            else
              Inr (case decode of
                     None \<Rightarrow> Body_Buffer body
                   | Some d \<Rightarrow> Body_string (d body)))"

subsection \<open>\<^verbatim>\<open>buffer(req)\<close>\<close>

text \<open>
  The media type is that of the header, or \<^verbatim>\<open>text/plain\<close> for a request without one; the
  errors of raw-body become errors of micro, with its messages.
\<close>

definition media :: "request \<Rightarrow> jsstring" where
  "media req =
     (case content_type req of
        None \<Rightarrow> js ''text/plain''
      | Some t \<Rightarrow> if t = [] then js ''text/plain'' else t)"

definition micro_buffer :: "request \<Rightarrow> thrown + buffered" where
  "micro_buffer req =
     (case charset (media req) of
        Inl e \<Rightarrow> Inl e
      | Inr encoding \<Rightarrow>
          (case getRawBody (content_length req) encoding (req_body req) of
             Inl Entity_too_large \<Rightarrow> Inl (Thrown_Error (js ''Body exceeded 1mb limit''))
           | Inl other \<Rightarrow> Inl (Thrown_Error (js ''Invalid body''))
           | Inr body \<Rightarrow> Inr body))"

section \<open>Inputs of the examples\<close>

text \<open>
  A runtime for the examples: micro as above, and the texts of Node 20 where the text is
  fixed; where the real text quotes the input (a syntax error, a pattern that failed) the
  example gives the fixed part only. It prints a number as its literal.
\<close>

definition sample_message :: "engine_error \<Rightarrow> jsstring" where
  "sample_message e =
     (case e of
        ERR_INVALID_ARG_TYPE \<Rightarrow>
          js (''The first argument must be of type string or an instance of Buffer, ''
              @ ''ArrayBuffer, or Array or an Array-like Object. Received undefined'')
      | ERR_CRYPTO_TIMING_SAFE_EQUAL_LENGTH \<Rightarrow> js ''Input buffers must have the same byte length''
      | JSON_SyntaxError t \<Rightarrow> js ''Unexpected token in JSON''
      | Destructure_TypeError p v \<Rightarrow> js ''Cannot destructure property of '' @ js p
      | ToPrimitive_TypeError \<Rightarrow> js ''Cannot convert object to primitive value'')"

definition sample_runtime :: runtime where
  "sample_runtime =
     \<lparr>buffer = micro_buffer, error_message = sample_message, number_text = (\<lambda>n. n)\<rparr>"

text \<open>
  A delivery of the provider: a POST of JSON with the length of the body declared. The
  signed request carries the signature of the provider.
\<close>

definition delivery :: "jsstring option \<Rightarrow> bytes \<Rightarrow> request" where
  "delivery signature b =
     \<lparr>req_method = js ''POST'', content_type = Some (js ''application/json''),
      content_length = Some (length b), x_signature = signature, req_body = b\<rparr>"

definition signed_request :: "jsstring option \<Rightarrow> bytes \<Rightarrow> request" where
  "signed_request env b = delivery (Some (provider_signature env b)) b"

text \<open>The scenario of the specification: the secret \<^verbatim>\<open>abc123\<close> and an order that was created.\<close>

definition abc123 :: "jsstring option" where
  "abc123 = Some (js ''abc123'')"

definition order_created_body :: bytes where
  \<open>order_created_body = ''{"meta":{"event_name":"order_created","custom_data":{"userId":"u1"}},"data":{"id":"o1","attributes":{"identifier":"ORD-1"}}}''\<close>

definition subscription_created_body :: bytes where
  \<open>subscription_created_body = ''{"meta":{"event_name":"subscription_created","custom_data":{"userId":"u1"}},"data":{"id":"o1","attributes":{"identifier":"ORD-1"}}}''\<close>

definition empty_name_body :: bytes where
  \<open>empty_name_body = ''{"meta":{"event_name":"","custom_data":{"userId":"u1"}},"data":{"id":"o1","attributes":{"identifier":"ORD-1"}}}''\<close>

definition no_custom_data_body :: bytes where
  \<open>no_custom_data_body = ''{"meta":{"event_name":"order_created"},"data":{"id":"o1","attributes":{"identifier":"ORD-1"}}}''\<close>

definition truncated_body :: bytes where
  \<open>truncated_body = ''{"meta":{"event_name":"order_created"''\<close>

text \<open>What the bodies above parse to.\<close>

definition sample_event :: "string \<Rightarrow> json" where
  "sample_event name =
     JObject
       [(js ''meta'',
         JObject
           [(js ''event_name'', JString (js name)),
            (js ''custom_data'', JObject [(js ''userId'', JString (js ''u1''))])]),
        (js ''data'',
         JObject
           [(js ''id'', JString (js ''o1'')),
            (js ''attributes'', JObject [(js ''identifier'', JString (js ''ORD-1''))])])]"

definition no_custom_data_event :: json where
  "no_custom_data_event =
     JObject
       [(js ''meta'', JObject [(js ''event_name'', JString (js ''order_created''))]),
        (js ''data'',
         JObject
           [(js ''id'', JString (js ''o1'')),
            (js ''attributes'', JObject [(js ''identifier'', JString (js ''ORD-1''))])])]"

text \<open>A body that is not UTF-8, and requests whose header is not a digest.\<close>

definition byte_ff :: bytes where
  "byte_ff = [CHR 0xFF]"

definition short_signature :: request where
  "short_signature = delivery (Some (js ''0'')) order_created_body"

definition no_signature :: request where
  "no_signature = delivery None order_created_body"

definition upper_request :: request where
  "upper_request = delivery (Some (upper_signature abc123 order_created_body)) order_created_body"

text \<open>
  A signed delivery of the body \<^verbatim>\<open>{}\<close> with a charset in its \<^verbatim>\<open>Content-Type\<close>, and the signed
  order with a \<^verbatim>\<open>Content-Type\<close> that is no media type.
\<close>

definition empty_object_body :: bytes where
  "empty_object_body = ''{}''"

definition utf16_request :: request where
  "utf16_request =
     (signed_request abc123 empty_object_body)
       \<lparr>content_type := Some (js ''application/json; charset=utf-16le'')\<rparr>"

definition untyped_request :: request where
  "untyped_request =
     (signed_request abc123 order_created_body)\<lparr>content_type := Some (js ''json'')\<rparr>"

section \<open>Strings and bytes\<close>

subsection \<open>Decoding well-formed UTF-8 and encoding it again\<close>

lemma code_points_not_high: "\<not> is_high u \<Longrightarrow> code_points (u # us) = lone u # code_points us"
  by (cases us) simp_all

lemma unat_of_nat16: "n < 65536 \<Longrightarrow> unat (of_nat n :: 16 word) = n"
  by (simp add: unat_of_nat)

lemma is_high_of_nat: "n < 65536 \<Longrightarrow> is_high (of_nat n) = (0xD800 \<le> n \<and> n \<le> 0xDBFF)"
  by (simp add: is_high_def word_le_nat_alt unat_of_nat16)

lemma is_low_of_nat: "n < 65536 \<Longrightarrow> is_low (of_nat n) = (0xDC00 \<le> n \<and> n \<le> 0xDFFF)"
  by (simp add: is_low_def word_le_nat_alt unat_of_nat16)

lemma code_points_utf16: "scalar n \<Longrightarrow> code_points (utf16 n @ us) = n # code_points us"
proof (cases "n < 0x10000")
  case True
  assume s: "scalar n"
  have nh: "\<not> is_high (of_nat n)" and nl: "\<not> is_low (of_nat n)"
    using s True by (auto simp: is_high_of_nat is_low_of_nat scalar_def)
  have "lone (of_nat n) = n"
    using nh nl True by (simp add: lone_def unat_of_nat16)
  with True nh show ?thesis
    by (simp add: utf16_def code_points_not_high)
next
  case False
  assume s: "scalar n"
  define m where "m = n - 0x10000"
  have m: "m < 0x100000" "n = 0x10000 + m" using s False by (simp_all add: scalar_def m_def)
  have h: "m div 0x400 < 0x400" using m by simp
  have l: "m mod 0x400 < 0x400" by simp
  define hu :: code_unit where "hu = of_nat (0xD800 + m div 0x400)"
  define lu :: code_unit where "lu = of_nat (0xDC00 + m mod 0x400)"
  have hi: "is_high hu"
    unfolding hu_def using h by (subst is_high_of_nat) simp_all
  have lo: "is_low lu"
    unfolding lu_def using l by (subst is_low_of_nat) simp_all
  have uh: "unat hu = 0xD800 + m div 0x400"
    unfolding hu_def using h by (subst unat_of_nat16) simp_all
  have ul: "unat lu = 0xDC00 + m mod 0x400"
    unfolding lu_def using l by (subst unat_of_nat16) simp_all
  have "utf16 n = [hu, lu]"
    using False unfolding utf16_def hu_def lu_def m_def by simp
  then show ?thesis
    using hi lo by (simp add: uh ul m(2))
qed

lemma code_points_toString: "list_all scalar ns \<Longrightarrow> code_points (concat (map utf16 ns)) = ns"
  by (induction ns) (simp_all add: code_points_utf16)

lemma div64: fixes a l :: nat assumes "l < 64"
  shows "(a * 64 + l) div 64 = a" and "(a * 64 + l) mod 64 = l"
  using assms by simp_all

lemma div4096: "(n::nat) div 4096 = n div 64 div 64"
  by (simp add: div_mult2_eq [symmetric])

lemma div262144: "(n::nat) div 262144 = n div 64 div 64 div 64"
  by (simp add: div_mult2_eq [symmetric])

lemma encode2_arith:
  fixes h l :: nat
  assumes "2 \<le> h" "h < 32" "l < 64"
  shows "encode_utf8 (h * 64 + l) = [char_of (0xC0 + h), char_of (0x80 + l)]"
    and "scalar (h * 64 + l)"
proof -
  define n where "n = h * 64 + l"
  have d: "n div 64 = h" "n mod 64 = l"
    unfolding n_def using assms(3) by (rule div64)+
  have b: "0x80 \<le> n" "n < 0x800"
    unfolding n_def using assms by simp_all
  show "encode_utf8 (h * 64 + l) = [char_of (0xC0 + h), char_of (0x80 + l)]"
    unfolding n_def [symmetric] using b by (simp add: encode_utf8_def d)
  show "scalar (h * 64 + l)"
    unfolding n_def [symmetric] using b by (simp add: scalar_def)
qed

lemma encode3_arith:
  fixes h l1 l2 :: nat
  assumes "h < 16" "l1 < 64" "l2 < 64" "h = 0 \<longrightarrow> 32 \<le> l1" "h = 13 \<longrightarrow> l1 < 32"
  shows "encode_utf8 ((h * 64 + l1) * 64 + l2)
           = [char_of (0xE0 + h), char_of (0x80 + l1), char_of (0x80 + l2)]"
    and "scalar ((h * 64 + l1) * 64 + l2)"
proof -
  define a where "a = h * 64 + l1"
  define n where "n = a * 64 + l2"
  have da: "a div 64 = h" "a mod 64 = l1"
    unfolding a_def using assms(2) by (rule div64)+
  have dn: "n div 64 = a" "n mod 64 = l2"
    unfolding n_def using assms(3) by (rule div64)+
  have ba: "32 \<le> a" "a < 1024" "\<not> (864 \<le> a \<and> a \<le> 895)"
    unfolding a_def using assms by arith+
  have b: "0x800 \<le> n" "n < 0x10000" "\<not> (0xD800 \<le> n \<and> n \<le> 0xDFFF)"
    unfolding n_def using ba assms(3) by arith+
  have e: "encode_utf8 n = [char_of (0xE0 + h), char_of (0x80 + l1), char_of (0x80 + l2)]"
    using b by (simp add: encode_utf8_def div4096 dn da)
  show "encode_utf8 ((h * 64 + l1) * 64 + l2)
           = [char_of (0xE0 + h), char_of (0x80 + l1), char_of (0x80 + l2)]"
    using e unfolding n_def a_def .
  show "scalar ((h * 64 + l1) * 64 + l2)"
    using b unfolding n_def a_def by (simp add: scalar_def)
qed

lemma encode4_arith:
  fixes h l1 l2 l3 :: nat
  assumes "h < 5" "l1 < 64" "l2 < 64" "l3 < 64" "h = 0 \<longrightarrow> 16 \<le> l1" "h = 4 \<longrightarrow> l1 < 16"
  shows "encode_utf8 (((h * 64 + l1) * 64 + l2) * 64 + l3)
           = [char_of (0xF0 + h), char_of (0x80 + l1), char_of (0x80 + l2), char_of (0x80 + l3)]"
    and "scalar (((h * 64 + l1) * 64 + l2) * 64 + l3)"
proof -
  define a where "a = h * 64 + l1"
  define c where "c = a * 64 + l2"
  define n where "n = c * 64 + l3"
  have da: "a div 64 = h" "a mod 64 = l1"
    unfolding a_def using assms(2) by (rule div64)+
  have dc: "c div 64 = a" "c mod 64 = l2"
    unfolding c_def using assms(3) by (rule div64)+
  have dn: "n div 64 = c" "n mod 64 = l3"
    unfolding n_def using assms(4) by (rule div64)+
  have ba: "16 \<le> a" "a < 272"
    unfolding a_def using assms by arith+
  have bc: "1024 \<le> c" "c < 17408"
    unfolding c_def using ba assms(3) by arith+
  have b: "0x10000 \<le> n" "n < 0x110000"
    unfolding n_def using bc assms(4) by arith+
  have e: "encode_utf8 n
      = [char_of (0xF0 + h), char_of (0x80 + l1), char_of (0x80 + l2), char_of (0x80 + l3)]"
    using b by (simp add: encode_utf8_def div4096 div262144 dn dc da)
  show "encode_utf8 (((h * 64 + l1) * 64 + l2) * 64 + l3)
           = [char_of (0xF0 + h), char_of (0x80 + l1), char_of (0x80 + l2), char_of (0x80 + l3)]"
    using e unfolding n_def c_def a_def .
  show "scalar (((h * 64 + l1) * 64 + l2) * 64 + l3)"
    using b unfolding n_def c_def a_def by (simp add: scalar_def)
qed

lemma cont_low6: "cont b \<Longrightarrow> low6 b < 64 \<and> char_of (0x80 + low6 b) = b"
proof -
  assume "cont b"
  then have "low6 b < 64" and "0x80 + low6 b = (of_char b :: nat)"
    by (auto simp: cont_def low6_def)
  then show ?thesis by (metis char_of_char)
qed

lemma second3_low6:
  assumes "second3 n0 b"
  shows "low6 b < 64" and "char_of (0x80 + low6 b) = b"
    and "n0 = 0xE0 \<longrightarrow> 32 \<le> low6 b" and "n0 = 0xED \<longrightarrow> low6 b < 32"
proof -
  have r: "0x80 \<le> (of_char b :: nat)" "(of_char b :: nat) \<le> 0xBF"
    using assms by (auto simp: second3_def split: if_splits)
  then have "cont b" by (simp add: cont_def)
  then show "low6 b < 64" and "char_of (0x80 + low6 b) = b"
    using cont_low6 by blast+
  show "n0 = 0xE0 \<longrightarrow> 32 \<le> low6 b" and "n0 = 0xED \<longrightarrow> low6 b < 32"
    using assms by (auto simp: second3_def low6_def)
qed

lemma second4_low6:
  assumes "second4 n0 b"
  shows "low6 b < 64" and "char_of (0x80 + low6 b) = b"
    and "n0 = 0xF0 \<longrightarrow> 16 \<le> low6 b" and "n0 = 0xF4 \<longrightarrow> low6 b < 16"
proof -
  have r: "0x80 \<le> (of_char b :: nat)" "(of_char b :: nat) \<le> 0xBF"
    using assms by (auto simp: second4_def split: if_splits)
  then have "cont b" by (simp add: cont_def)
  then show "low6 b < 64" and "char_of (0x80 + low6 b) = b"
    using cont_low6 by blast+
  show "n0 = 0xF0 \<longrightarrow> 16 \<le> low6 b" and "n0 = 0xF4 \<longrightarrow> low6 b < 16"
    using assms by (auto simp: second4_def low6_def)
qed

lemma decode_well_formed:
  "well_formed_utf8 bs \<Longrightarrow>
     list_all scalar (decode_utf8 bs) \<and> concat (map encode_utf8 (decode_utf8 bs)) = bs"
proof (induction "length bs" arbitrary: bs rule: less_induct)
  case less
  show ?case
  proof (cases bs)
    case Nil
    then show ?thesis by simp
  next
    case (Cons b0 r0)
    define n0 where "n0 = (of_char b0 :: nat)"
    have b0: "char_of n0 = b0" by (simp add: n0_def)
    consider (one) "n0 < 0x80"
      | (two) "\<not> n0 < 0x80" "0xC2 \<le> n0 \<and> n0 \<le> 0xDF"
      | (three) "\<not> n0 < 0x80" "\<not> (0xC2 \<le> n0 \<and> n0 \<le> 0xDF)" "0xE0 \<le> n0 \<and> n0 \<le> 0xEF"
      | (four) "\<not> n0 < 0x80" "\<not> (0xC2 \<le> n0 \<and> n0 \<le> 0xDF)" "\<not> (0xE0 \<le> n0 \<and> n0 \<le> 0xEF)"
          "0xF0 \<le> n0 \<and> n0 \<le> 0xF4"
      | (none) "\<not> n0 < 0x80" "\<not> (0xC2 \<le> n0 \<and> n0 \<le> 0xDF)" "\<not> (0xE0 \<le> n0 \<and> n0 \<le> 0xEF)"
          "\<not> (0xF0 \<le> n0 \<and> n0 \<le> 0xF4)"
      by blast
    then show ?thesis
    proof cases
      case one
      have w: "well_formed_utf8 r0"
        using less.prems one by (simp add: Cons n0_def [symmetric])
      have d: "decode_utf8 bs = n0 # decode_utf8 r0"
        using one by (simp add: Cons n0_def [symmetric])
      have e: "encode_utf8 n0 = [b0]" "scalar n0"
        using one b0 by (simp_all add: encode_utf8_def scalar_def)
      show ?thesis
        using less.hyps [of r0] w unfolding d by (simp add: e Cons)
    next
      case two
      obtain b1 r where r0: "r0 = b1 # r" and c: "cont b1" and w: "well_formed_utf8 r"
        using less.prems two by (auto simp: Cons n0_def [symmetric] split: list.splits)
      define cp where "cp = (n0 - 0xC0) * 64 + low6 b1"
      have d: "decode_utf8 bs = cp # decode_utf8 r"
        unfolding cp_def using two c by (simp add: Cons r0 n0_def [symmetric])
      have h: "2 \<le> n0 - 0xC0" "n0 - 0xC0 < 32" "char_of (0xC0 + (n0 - 0xC0)) = b0"
        using two b0 by auto
      have e: "encode_utf8 cp = [b0, b1]" "scalar cp"
        unfolding cp_def using encode2_arith [OF h(1,2), of "low6 b1"] cont_low6 [OF c] h(3) by simp_all
      show ?thesis
        using less.hyps [of r] w unfolding d by (simp add: e Cons r0)
    next
      case three
      obtain b1 b2 r where r0: "r0 = b1 # b2 # r" and s: "second3 n0 b1" and c: "cont b2"
        and w: "well_formed_utf8 r"
        using less.prems three by (auto simp: Cons n0_def [symmetric] split: list.splits)
      define cp where "cp = ((n0 - 0xE0) * 64 + low6 b1) * 64 + low6 b2"
      have d: "decode_utf8 bs = cp # decode_utf8 r"
        unfolding cp_def using three s c by (simp add: Cons r0 n0_def [symmetric])
      have h: "n0 - 0xE0 < 16" "char_of (0xE0 + (n0 - 0xE0)) = b0"
        "n0 - 0xE0 = 0 \<longrightarrow> n0 = 0xE0" "n0 - 0xE0 = 13 \<longrightarrow> n0 = 0xED"
        using three b0 by auto
      have e: "encode_utf8 cp = [b0, b1, b2]" "scalar cp"
        unfolding cp_def using encode3_arith [of "n0 - 0xE0" "low6 b1" "low6 b2"] second3_low6 [OF s] cont_low6 [OF c] h
        by simp_all
      show ?thesis
        using less.hyps [of r] w unfolding d by (simp add: e Cons r0)
    next
      case four
      obtain b1 b2 b3 r where r0: "r0 = b1 # b2 # b3 # r" and s: "second4 n0 b1"
        and c2: "cont b2" and c3: "cont b3" and w: "well_formed_utf8 r"
        using less.prems four by (auto simp: Cons n0_def [symmetric] split: list.splits)
      define cp where "cp = (((n0 - 0xF0) * 64 + low6 b1) * 64 + low6 b2) * 64 + low6 b3"
      have d: "decode_utf8 bs = cp # decode_utf8 r"
        unfolding cp_def using four s c2 c3 by (simp add: Cons r0 n0_def [symmetric])
      have h: "n0 - 0xF0 < 5" "char_of (0xF0 + (n0 - 0xF0)) = b0"
        "n0 - 0xF0 = 0 \<longrightarrow> n0 = 0xF0" "n0 - 0xF0 = 4 \<longrightarrow> n0 = 0xF4"
        using four b0 by auto
      have e: "encode_utf8 cp = [b0, b1, b2, b3]" "scalar cp"
        unfolding cp_def using encode4_arith [of "n0 - 0xF0" "low6 b1" "low6 b2" "low6 b3"]
          second4_low6 [OF s] cont_low6 [OF c2] cont_low6 [OF c3] h
        by simp_all
      show ?thesis
        using less.hyps [of r] w unfolding d by (simp add: e Cons r0)
    next
      case none
      then have False
        using less.prems by (auto simp: Cons n0_def [symmetric] split: if_splits)
      then show ?thesis ..
    qed
  qed
qed

lemma Buffer_from_toString:
  "well_formed_utf8 bs \<Longrightarrow> Buffer_from_utf8 (toString_utf8 bs) = bs"
  using decode_well_formed [of bs] by (simp add: Buffer_from_utf8_def toString_utf8_def code_points_toString)

subsection \<open>ASCII, hexadecimal digits and the length of a digest\<close>

lemma decode_ascii: "ascii b \<Longrightarrow> decode_utf8 b = map of_char b"
  by (induction b) (simp_all add: ascii_def)

lemma toString_ascii: "ascii b \<Longrightarrow> toString_utf8 b = js b"
proof -
  assume a: "ascii b"
  have "concat (map utf16 (map of_char b)) = js b"
    using a by (induction b) (simp_all add: ascii_def js_def utf16_def)
  then show ?thesis
    using a by (simp add: toString_utf8_def decode_ascii)
qed

lemma well_formed_ascii: "ascii b \<Longrightarrow> well_formed_utf8 b"
  by (induction b) (simp_all add: ascii_def)

lemma Buffer_from_ascii: "ascii s \<Longrightarrow> Buffer_from_utf8 (js s) = s"
  using Buffer_from_toString [of s] by (simp add: toString_ascii well_formed_ascii)

lemma length_hex_with: "length (hex_with ds bs) = 2 * length bs"
  by (induction bs) (simp_all add: hex_with_def)

lemma set_hex_with: "length ds = 16 \<Longrightarrow> set (hex_with ds bs) \<subseteq> set ds"
proof (induction bs)
  case Nil
  then show ?case by (simp add: hex_with_def)
next
  case (Cons b bs)
  have "(of_char b :: nat) div 16 < 16"
    by (rule less_mult_imp_div_less) simp
  moreover have "(of_char b :: nat) mod 16 < 16"
    by simp
  ultimately have "(of_char b :: nat) div 16 < 16" "(of_char b :: nat) mod 16 < 16"
    by simp_all
  then have "ds ! (of_char b div 16) \<in> set ds" "ds ! (of_char b mod 16) \<in> set ds"
    using Cons.prems by simp_all
  then show ?case
    using Cons by (simp add: hex_with_def)
qed

lemma ascii_hex: "ascii (hex bs)"
proof -
  have "set (hex bs) \<subseteq> set ''0123456789abcdef''"
    unfolding hex_def by (rule set_hex_with) simp
  moreover have "ascii ''0123456789abcdef''"
    by (simp add: ascii_def)
  ultimately show ?thesis
    unfolding ascii_def list_all_iff by blast
qed

lemma ascii_upper: "ascii (hex_with ''0123456789ABCDEF'' bs)"
proof -
  have "set (hex_with ''0123456789ABCDEF'' bs) \<subseteq> set ''0123456789ABCDEF''"
    by (rule set_hex_with) simp
  moreover have "ascii ''0123456789ABCDEF''"
    by (simp add: ascii_def)
  ultimately show ?thesis
    unfolding ascii_def list_all_iff by blast
qed

lemma length_be_bytes: "length (be_bytes n x) = n"
  by (simp add: be_bytes_def)

lemma length_sha256: "length (sha256 m) = 32"
proof -
  have "length (state_bytes s) = 32" for s
    by (cases s rule: state_bytes.cases) (simp add: length_be_bytes)
  then show ?thesis by (simp add: sha256_def Let_def)
qed

lemma length_hmac_sha256: "length (hmac_sha256 k m) = 32"
  by (simp add: hmac_sha256_def Let_def length_sha256)

lemma digest_bytes:
  "Buffer_from_utf8 (hmac_digest_hex k d)
     = hex (hmac_sha256 (Buffer_from_utf8 k) (Buffer_from_utf8 d))"
  by (simp add: hmac_digest_hex_def Buffer_from_ascii ascii_hex)

lemma length_digest: "length (Buffer_from_utf8 (hmac_digest_hex k d)) = 64"
  by (simp add: digest_bytes hex_def length_hex_with length_hmac_sha256)

section \<open>The parser consumes what it reads\<close>

lemma length_skip_ws: "length (skip_ws cs) \<le> length cs"
  by (induction cs) auto

lemma skip_ws_Cons: "skip_ws cs = c # r \<Longrightarrow> length r < length cs"
  using length_skip_ws [of cs] by simp

lemma string_chars_shorter: "string_chars cs = Some (s, rest) \<Longrightarrow> length rest < length cs"
  by (induction cs arbitrary: s rest rule: string_chars.induct)
     (auto simp: cons_char_def split: if_splits list.splits option.splits, force+)

lemma length_digits: "length (snd (digits cs)) \<le> length cs"
  by (simp add: digits_def length_dropWhile_le)

lemma int_part_shorter: "int_part cs = Some (i, rest) \<Longrightarrow> length rest < length cs"
  using length_digits by (auto simp: int_part_def less_Suc_eq_le split: list.splits if_splits)

lemma frac_part_shorter: "frac_part cs = Some (f, rest) \<Longrightarrow> length rest \<le> length cs"
  using length_digits
  by (auto simp: frac_part_def le_Suc_eq split: list.splits if_splits)

lemma exp_digits_shorter: "exp_digits pre r = Some (e, rest) \<Longrightarrow> length rest \<le> length r"
  using length_digits by (auto simp: exp_digits_def split: if_splits)

lemma exp_part_shorter: "exp_part cs = Some (e, rest) \<Longrightarrow> length rest \<le> length cs"
  by (auto simp: exp_part_def split: list.splits if_splits dest!: exp_digits_shorter)

lemma number_token_shorter: "number_token cs = Some (n, rest) \<Longrightarrow> length rest < length cs"
  by (auto simp: number_token_def split: list.splits if_splits option.splits prod.splits
      dest!: int_part_shorter frac_part_shorter exp_part_shorter)

lemma literal_shorter: "w \<noteq> [] \<Longrightarrow> literal w v cs = Some (x, rest) \<Longrightarrow> length rest < length cs"
  by (cases cs) (auto simp: literal_def js_def split: if_splits)

lemma scalar_value_shorter: "scalar_value cs = Some (v, rest) \<Longrightarrow> length rest < length cs"
  by (auto simp: scalar_value_def split: list.splits if_splits
      dest!: string_chars_shorter number_token_shorter literal_shorter [rotated])

lemma parse_shorter:
  "(\<forall>v rest. parse_value cs = Some (v, rest) \<longrightarrow> length rest < length cs)"
  "(\<forall>v rest. parse_elements acc cs = Some (v, rest) \<longrightarrow> length rest < length cs)"
  "(\<forall>v rest. parse_members macc cs = Some (v, rest) \<longrightarrow> length rest < length cs)"
proof (induction cs and acc cs and macc cs rule: parse_value_parse_elements_parse_members.induct)
  case (1 cs)
  show ?case
  proof (intro allI impI)
    fix v rest
    assume p: "parse_value cs = Some (v, rest)"
    then obtain c r where sk: "skip_ws cs = c # r"
      by (auto simp: parse_value.simps [of cs] split: list.splits)
    have r: "length r < length cs"
      using sk by (rule skip_ws_Cons)
    consider (arr) "c = 0x5B" | (obj) "c \<noteq> 0x5B" "c = 0x7B" | (sca) "c \<noteq> 0x5B" "c \<noteq> 0x7B"
      by blast
    then show "length rest < length cs"
    proof cases
      case arr
      then obtain d r1 where sk1: "skip_ws r = d # r1"
        using p sk by (auto simp: parse_value.simps [of cs] split: list.splits)
      show ?thesis
      proof (cases "d = 0x5D")
        case True
        then have "rest = r1"
          using p sk sk1 arr by (simp add: parse_value.simps [of cs])
        then show ?thesis
          using skip_ws_Cons [OF sk1] r by simp
      next
        case False
        then have "parse_elements [] r = Some (v, rest)"
          using p sk sk1 arr by (simp add: parse_value.simps [of cs])
        then have "length rest < length r"
          using "1.IH"(1) [OF sk arr sk1 False] by blast
        then show ?thesis using r by simp
      qed
    next
      case obj
      then obtain d r1 where sk1: "skip_ws r = d # r1"
        using p sk by (auto simp: parse_value.simps [of cs] split: list.splits)
      show ?thesis
      proof (cases "d = 0x7D")
        case True
        then have "rest = r1"
          using p sk sk1 obj by (simp add: parse_value.simps [of cs])
        then show ?thesis
          using skip_ws_Cons [OF sk1] r by simp
      next
        case False
        then have "parse_members [] r = Some (v, rest)"
          using p sk sk1 obj by (simp add: parse_value.simps [of cs])
        then have "length rest < length r"
          using "1.IH"(2) [OF sk obj(1) obj(2) sk1 False] by blast
        then show ?thesis using r by simp
      qed
    next
      case sca
      then have "scalar_value (c # r) = Some (v, rest)"
        using p sk by (simp add: parse_value.simps [of cs])
      then have "length rest < length (c # r)"
        by (rule scalar_value_shorter)
      then show ?thesis
        using length_skip_ws [of cs] sk by simp
    qed
  qed
next
  case (2 acc cs)
  show ?case
  proof (intro allI impI)
    fix v rest
    assume p: "parse_elements acc cs = Some (v, rest)"
    then obtain x rest0 where pv: "parse_value cs = Some (x, rest0)"
      by (auto simp: parse_elements.simps [of acc cs] split: option.splits)
    have g: "length rest0 < length cs"
      using "2.IH"(1) pv by blast
    obtain d r where sk: "skip_ws rest0 = d # r"
      using p pv g by (auto simp: parse_elements.simps [of acc cs] split: list.splits)
    have r: "length r < length rest0"
      using sk by (rule skip_ws_Cons)
    show "length rest < length cs"
    proof (cases "d = 0x2C")
      case True
      then have "parse_elements (acc @ [x]) r = Some (v, rest)"
        using p pv g sk by (simp add: parse_elements.simps [of acc cs])
      then have "length rest < length r"
        using "2.IH"(2) [OF pv refl g sk True] by blast
      then show ?thesis using r g by simp
    next
      case False
      then have "rest = r"
        using p pv g sk by (auto simp: parse_elements.simps [of acc cs] split: if_splits)
      then show ?thesis using r g by simp
    qed
  qed
next
  case (3 macc cs)
  show ?case
  proof (intro allI impI)
    fix v rest
    assume p: "parse_members macc cs = Some (v, rest)"
    then obtain q cs1 where sk: "skip_ws cs = q # cs1"
      by (auto simp: parse_members.simps [of macc cs] split: list.splits)
    have q: "q = 0x22"
      using p sk by (auto simp: parse_members.simps [of macc cs] split: if_splits)
    obtain k cs2 where st: "string_chars cs1 = Some (k, cs2)"
      using p sk q by (auto simp: parse_members.simps [of macc cs] split: option.splits)
    obtain colon cs3 where sk2: "skip_ws cs2 = colon # cs3"
      using p sk q st by (auto simp: parse_members.simps [of macc cs] split: list.splits)
    have colon: "colon = 0x3A"
      using p sk q st sk2 by (auto simp: parse_members.simps [of macc cs] split: if_splits)
    obtain x rest0 where pv: "parse_value cs3 = Some (x, rest0)"
      using p sk q st sk2 colon
      by (auto simp: parse_members.simps [of macc cs] split: option.splits)
    have g: "length rest0 < length cs3"
      using "3.IH"(1) [OF sk q st refl sk2 colon] pv by blast
    obtain d r where sk3: "skip_ws rest0 = d # r"
      using p sk q st sk2 colon pv g
      by (auto simp: parse_members.simps [of macc cs] split: list.splits)
    have l: "length cs3 < length cs"
      using skip_ws_Cons [OF sk] string_chars_shorter [OF st] skip_ws_Cons [OF sk2] by simp
    have r: "length r < length rest0"
      using sk3 by (rule skip_ws_Cons)
    show "length rest < length cs"
    proof (cases "d = 0x2C")
      case True
      then have "parse_members (macc @ [(k, x)]) r = Some (v, rest)"
        using p sk q st sk2 colon pv g sk3 by (simp add: parse_members.simps [of macc cs])
      then have "length rest < length r"
        using "3.IH"(2) [OF sk q st refl sk2 colon pv refl g sk3 True] by blast
      then show ?thesis using r g l by simp
    next
      case False
      then have "rest = r"
        using p sk q st sk2 colon pv g sk3
        by (auto simp: parse_members.simps [of macc cs] split: if_splits)
      then show ?thesis using r g l by simp
    qed
  qed
qed

lemma parse_value_shorter: "parse_value cs = Some (v, rest) \<Longrightarrow> length rest < length cs"
  using parse_shorter(1) by blast

text \<open>So the guards can be left out when the functions are read.\<close>

lemma parse_elements_unguarded:
  "parse_elements acc cs =
     (case parse_value cs of
        None \<Rightarrow> None
      | Some (v, rest) \<Rightarrow>
          (case skip_ws rest of
             [] \<Rightarrow> None
           | d # r \<Rightarrow>
               if d = 0x2C then parse_elements (acc @ [v]) r
               else if d = 0x5D then Some (JArray (acc @ [v]), r)
               else None))"
  by (subst parse_elements.simps) (auto split: option.splits dest: parse_value_shorter)

lemma parse_members_unguarded:
  "parse_members acc cs =
     (case skip_ws cs of
        [] \<Rightarrow> None
      | q # cs1 \<Rightarrow>
          if q = 0x22 then
            (case string_chars cs1 of
               None \<Rightarrow> None
             | Some (k, cs2) \<Rightarrow>
                 (case skip_ws cs2 of
                    [] \<Rightarrow> None
                  | colon # cs3 \<Rightarrow>
                      if colon = 0x3A then
                        (case parse_value cs3 of
                           None \<Rightarrow> None
                         | Some (v, rest) \<Rightarrow>
                             (case skip_ws rest of
                                [] \<Rightarrow> None
                              | d # r \<Rightarrow>
                                  if d = 0x2C then parse_members (acc @ [(k, v)]) r
                                  else if d = 0x7D then Some (JObject (acc @ [(k, v)]), r)
                                  else None))
                      else None))
          else None)"
  by (subst parse_members.simps)
     (auto split: option.splits list.splits dest: parse_value_shorter)

section \<open>How the signature check ends\<close>

lemma rawBody_Some:
  assumes "rawBody rt req = Some t"
  obtains body where "buffer rt req = Inr body" "t = toString body"
  using assms by (auto simp: rawBody_def split: sum.splits)

lemma rawBody_undecoded: "undecoded rt req \<Longrightarrow> rawBody rt req = Some (toString_utf8 (req_body req))"
  by (simp add: undecoded_def rawBody_def toString_def)

lemma handler_rejected:
  assumes "req_method req = js ''POST''" "buffer rt req = Inl e"
  shows "handler rt env req = ([], catch_block e)"
  using assms by (simp add: handler_def try_block_def after_try_def)

lemma handler_no_rawBody:
  assumes "req_method req = js ''POST''" "rawBody rt req = None"
  shows "calls rt env req = []"
  using assms
  by (auto simp: calls_def handler_def try_block_def rawBody_def split: sum.splits)

lemma handler_no_header:
  assumes "req_method req = js ''POST''" "rawBody rt req = Some t" "x_signature req = None"
  shows "handler rt env req =
    ([Hmac_update t],
     Responded 400 (Message (js ''Webhook error: '' @ error_message rt ERR_INVALID_ARG_TYPE)))"
proof -
  obtain body where "buffer rt req = Inr body" "t = toString body"
    using assms(2) by (rule rawBody_Some)
  then show ?thesis
    using assms(1,3)
    by (simp add: handler_def try_block_def Let_def Buffer_from_def raise_def after_try_def
        catch_block_def)
qed

lemma handler_length_mismatch:
  assumes "req_method req = js ''POST''" "rawBody rt req = Some t"
    "x_signature req = Some s" "length (Buffer_from_utf8 s) \<noteq> 64"
  shows "handler rt env req =
    ([Hmac_update t, Timing_safe_equal (digest env t) (Buffer_from_utf8 s)],
     Responded 400
       (Message (js ''Webhook error: '' @ error_message rt ERR_CRYPTO_TIMING_SAFE_EQUAL_LENGTH)))"
proof -
  obtain body where "buffer rt req = Inr body" "t = toString body"
    using assms(2) by (rule rawBody_Some)
  then show ?thesis
    using assms(1,3,4)
    by (simp add: handler_def try_block_def Let_def Buffer_from_def timingSafeEqual_def raise_def
        after_try_def catch_block_def digest_def length_digest)
qed

lemma handler_mismatch:
  assumes "req_method req = js ''POST''" "rawBody rt req = Some t"
    "x_signature req = Some s" "length (Buffer_from_utf8 s) = 64"
    "Buffer_from_utf8 s \<noteq> digest env t"
  shows "handler rt env req =
    ([Hmac_update t, Timing_safe_equal (digest env t) (Buffer_from_utf8 s)],
     Responded 400 (Message (js ''Invalid signature.'')))"
proof -
  obtain body where b: "buffer rt req = Inr body" "t = toString body"
    using assms(2) by (rule rawBody_Some)
  have "digest env t \<noteq> Buffer_from_utf8 s"
    using assms(5) by (rule not_sym)
  then show ?thesis
    using assms(1,3,4) b
    by (simp add: handler_def try_block_def Let_def Buffer_from_def timingSafeEqual_def
        after_try_def digest_def length_digest)
qed

lemma handler_verified:
  assumes "req_method req = js ''POST''" "verified rt env req" "rawBody rt req = Some t"
  shows "handler rt env req =
    ([Hmac_update t, Timing_safe_equal (digest env t) (digest env t), Json_parse t],
     after_try (after_verification rt t))"
proof -
  obtain body where b: "buffer rt req = Inr body" "t = toString body"
    using assms(3) by (rule rawBody_Some)
  obtain s where s: "x_signature req = Some s" "Buffer_from_utf8 s = digest env t"
    using assms(2,3) by (auto simp: verified_def split: option.splits)
  show ?thesis
    using assms(1) b s
    by (simp add: handler_def try_block_def Let_def Buffer_from_def timingSafeEqual_def
        digest_def)
qed

lemma verified_rawBody: "verified rt env req \<Longrightarrow> \<exists>t. rawBody rt req = Some t"
  by (auto simp: verified_def split: option.splits)

lemma not_verified_cases:
  assumes "\<not> verified rt env req"
  obtains "rawBody rt req = None"
  | t where "rawBody rt req = Some t" "x_signature req = None"
  | t s where "rawBody rt req = Some t" "x_signature req = Some s"
      "length (Buffer_from_utf8 s) \<noteq> 64"
  | t s where "rawBody rt req = Some t" "x_signature req = Some s"
      "length (Buffer_from_utf8 s) = 64" "Buffer_from_utf8 s \<noteq> digest env t"
  using assms by (auto simp: verified_def split: option.splits)

lemma digest_well_formed:
  "well_formed_utf8 b \<Longrightarrow>
     digest env (toString_utf8 b) = hex (hmac_sha256 (Buffer_from_utf8 (signingSecret env)) b)"
  by (simp add: digest_def digest_bytes Buffer_from_toString)

lemma provider_verified:
  assumes "undecoded rt req" "well_formed_utf8 (req_body req)"
    "x_signature req = Some (provider_signature env (req_body req))"
  shows "verified rt env req"
  using assms
  by (simp add: verified_def rawBody_undecoded digest_well_formed provider_signature_def
      Buffer_from_ascii ascii_hex)

section \<open>What micro makes of a delivery\<close>

lemma quoted_string_shorter: "quoted_string cs = Some (v, rest) \<Longrightarrow> length rest < length cs"
proof (induction cs arbitrary: v rule: quoted_string.induct)
  case 1
  then show ?case by simp
next
  case (2 c cs)
  show ?case
  proof (cases "c = 0x22")
    case True
    then show ?thesis using 2(3) by simp
  next
    case q: False
    show ?thesis
    proof (cases "c = 0x5C")
      case True
      then obtain e cs1 where cs: "cs = e # cs1"
        using 2(3) q by (cases cs) simp_all
      then obtain w where "quoted_string cs1 = Some (w, rest)" "escaped e"
        using 2(3) q True by (auto simp: cons_char_def split: if_splits option.splits)
      then have "length rest < length cs1"
        using 2(1) [OF q True cs] by simp
      then show ?thesis using cs by simp
    next
      case False
      then obtain w where "quoted_string cs = Some (w, rest)" "qdtext c"
        using 2(3) q by (auto simp: cons_char_def split: if_splits option.splits)
      then have "length rest < length cs"
        using 2(2) [OF q False] by simp
      then show ?thesis by simp
    qed
  qed
qed

lemma length_spaces: "length (spaces s) \<le> length s"
  by (simp add: spaces_def length_dropWhile_le)

lemma parameter_shorter: "parameter s = Some (kv, rest) \<Longrightarrow> length rest < length s"
proof -
  assume p: "parameter s = Some (kv, rest)"
  have d: "length (spaces (dropWhile tchar t)) \<le> length t" for t
    using length_spaces [of "dropWhile tchar t"] length_dropWhile_le [of tchar t] by simp
  have q: "quoted_string t = Some (v, r) \<Longrightarrow> length (spaces r) < length t" for t v r
    using quoted_string_shorter [of t v r] length_spaces [of r] by simp
  obtain c s1 where s: "s = c # s1"
    using p by (cases s) (simp_all add: parameter_def)
  obtain e s3 where s2: "spaces (dropWhile tchar (spaces s1)) = e # s3"
    using p unfolding s
    by (cases "spaces (dropWhile tchar (spaces s1))")
       (simp_all add: parameter_def Let_def split: if_splits)
  obtain q' s4 where s3: "spaces s3 = q' # s4"
    using p unfolding s
    by (cases "spaces s3") (simp_all add: parameter_def Let_def s2 split: if_splits)
  have l1: "Suc (length s3) \<le> length s1"
    using d [of "spaces s1"] length_spaces [of s1] unfolding s2 by simp
  have l2: "Suc (length s4) \<le> length s3"
    using length_spaces [of s3] unfolding s3 by simp
  have "length rest \<le> Suc (length s4)"
    using p d [of "q' # s4"] unfolding s
    by (auto simp: parameter_def Let_def s2 s3 split: if_splits option.splits dest: q)
  then show ?thesis
    using l1 l2 unfolding s by simp
qed

lemma parameters_unguarded:
  "parameters s =
     (if s = [] then Some []
      else
        case parameter s of
          None \<Rightarrow> None
        | Some (kv, rest) \<Rightarrow> map_option (Cons kv) (parameters rest))"
  by (subst parameters.simps) (auto split: option.splits dest: parameter_shorter)

lemma charset_json: "charset (js ''application/json'') = Inr None"
  by code_simp

text \<open>
  A request whose \<^verbatim>\<open>Content-Type\<close> names no charset, with a body within the limit and of
  the length it declares, if it declares one, is handed on undecoded.
\<close>

lemma micro_undecoded:
  assumes "charset (media req) = Inr None"
    "content_length req = None \<or> content_length req = Some (length (req_body req))"
    "int (length (req_body req)) \<le> limit"
  shows "micro_buffer req = Inr (Body_Buffer (req_body req))"
  using assms by (auto simp: micro_buffer_def getRawBody_def decoder_def)

lemma delivery_fields:
  "req_method (delivery signature b) = js ''POST''"
  "req_body (delivery signature b) = b"
  "x_signature (delivery signature b) = signature"
  by (simp_all add: delivery_def)

lemma signed_request_fields:
  "req_method (signed_request env b) = js ''POST''"
  "req_body (signed_request env b) = b"
  "x_signature (signed_request env b) = Some (provider_signature env b)"
  by (simp_all add: signed_request_def delivery_def)

lemma sample_delivery:
  assumes "int (length b) \<le> limit"
  shows "undecoded sample_runtime (delivery signature b)"
proof -
  have "media (delivery signature b) = js ''application/json''"
    by (simp add: media_def delivery_def js_def)
  then have "micro_buffer (delivery signature b)
      = Inr (Body_Buffer (req_body (delivery signature b)))"
    using assms by (intro micro_undecoded) (simp_all add: charset_json delivery_def)
  then show ?thesis
    by (simp add: undecoded_def sample_runtime_def)
qed

lemma sample_rawBody:
  assumes "ascii b" "int (length b) \<le> limit"
  shows "rawBody sample_runtime (delivery signature b) = Some (js b)"
  using rawBody_undecoded [OF sample_delivery [OF assms(2)]] assms(1)
  by (simp add: delivery_def toString_ascii)

lemma sample_verified:
  assumes "ascii b" "int (length b) \<le> limit"
  shows "verified sample_runtime env (signed_request env b)"
  unfolding signed_request_def
  by (rule provider_verified)
     (simp_all add: sample_delivery assms well_formed_ascii delivery_fields)

section \<open>After the signature was accepted\<close>

lemma object_not_nullish: "is_object v \<Longrightarrow> \<not> nullish v"
  by (auto simp: is_object_def nullish_def split: option.splits json.splits)

lemma get_object: "is_object (get v k) \<Longrightarrow> is_object v"
  by (auto simp: is_object_def get_def split: option.splits json.splits)

lemma after_verification_event:
  assumes "parse_text t = Some p" "well_formed_event p"
  shows "after_verification rt t = dispatch rt (event_name p) (order_identifier p) (order_id p)"
proof -
  have m: "\<not> nullish (get (Some p) ''meta'')"
    and c: "\<not> nullish (get (get (Some p) ''meta'') ''custom_data'')"
    and d: "\<not> nullish (get (Some p) ''data'')"
    and a: "\<not> nullish (get (get (Some p) ''data'') ''attributes'')"
    using assms(2) by (simp_all add: well_formed_event_def object_not_nullish)
  have "is_object (Some p)"
    using assms(2) get_object [of "Some p" "''meta''"] by (simp add: well_formed_event_def)
  then have p: "\<not> nullish (Some p)"
    by (rule object_not_nullish)
  show ?thesis
    using assms(1) p m c d a
    by (simp add: after_verification_def JSON_parse_def destructure_def Let_def event_name_def
        order_identifier_def order_id_def)
qed

lemma after_verification_missing:
  assumes "parse_text t = Some p"
    "nullish (get (get (Some p) ''meta'') ''custom_data'')
       \<or> nullish (get (get (Some p) ''data'') ''attributes'')"
  shows "\<exists>k v. after_verification rt t = raise rt (Destructure_TypeError k v)"
  using assms(1)
  by (auto simp: after_verification_def JSON_parse_def destructure_def Let_def raise_def
      intro: assms(2) [THEN disjE])

lemma substitution_string: "substitution rt (Some (JString s)) = Inr s"
  by (simp add: substitution_def)

section \<open>The examples, evaluated\<close>

text \<open>The second test case of RFC 4231, and the digests the examples need.\<close>

lemma hmac_sha256_rfc4231:
  "hex (hmac_sha256 ''Jefe'' ''what do ya want for nothing?'')
     = ''5bdcc146bf60754e6a042426089575c75a003f089d2739839dec58b964ec3843''"
  by code_simp

lemma hmac_byte_ff:
  "hex (hmac_sha256 [] byte_ff)
     = ''4985f8759521234ca18940b2ed17fadf89364a4d07c7259ca1aa42942861a61e''"
  by code_simp

lemma hmac_replacement:
  "hex (hmac_sha256 [] [CHR 0xEF, CHR 0xBF, CHR 0xBD])
     = ''af745905970a0b9d55dac2288701f16d83e0944474321db26f5b3bf5e55abd3d''"
  by code_simp

lemma hmac_order_created:
  "hmac_sha256 ''abc123'' order_created_body =
    [CHR 0xE1, CHR 0x70, CHR 0xCE, CHR 0x38, CHR 0x4A, CHR 0x82, CHR 0x36, CHR 0x45,
     CHR 0x52, CHR 0xE4, CHR 0xA9, CHR 0xF3, CHR 0x97, CHR 0x4B, CHR 0x9B, CHR 0xC7,
     CHR 0x58, CHR 0x7E, CHR 0xA5, CHR 0xDE, CHR 0xDC, CHR 0x17, CHR 0x46, CHR 0xA6,
     CHR 0x0D, CHR 0x74, CHR 0x3F, CHR 0x7E, CHR 0xB4, CHR 0xDD, CHR 0xEA, CHR 0x5A]"
  by code_simp

lemma hmac_empty_object:
  "hex (hmac_sha256 ''abc123'' empty_object_body)
     = ''b65d06306051d683161164b9e008febf52ec4eafbe8ee54f7e07062a1b6a5d0a''"
  by code_simp

lemma hmac_utf16le:
  "hex (hmac_sha256 ''abc123'' [CHR 0xE7, CHR 0xB5, CHR 0xBB])
     = ''ab735cf15a38f745b66871c4e36f6d2b486854461dd5e694530229acd3f74de7''"
  by code_simp

lemma ascii_bodies:
  "ascii order_created_body" "ascii subscription_created_body" "ascii empty_name_body"
  "ascii no_custom_data_body" "ascii truncated_body"
  by (simp_all add: ascii_def order_created_body_def subscription_created_body_def
      empty_name_body_def no_custom_data_body_def truncated_body_def)

lemma small_bodies:
  "int (length order_created_body) \<le> limit" "int (length subscription_created_body) \<le> limit"
  "int (length empty_name_body) \<le> limit" "int (length no_custom_data_body) \<le> limit"
  "int (length truncated_body) \<le> limit"
  by (simp_all add: limit_def order_created_body_def subscription_created_body_def
      empty_name_body_def no_custom_data_body_def truncated_body_def)

lemma parse_order_created:
  "parse_text (js order_created_body) = Some (sample_event ''order_created'')"
  by code_simp

lemma parse_subscription_created:
  "parse_text (js subscription_created_body) = Some (sample_event ''subscription_created'')"
  by code_simp

lemma parse_empty_name: "parse_text (js empty_name_body) = Some (sample_event '''')"
  by code_simp

lemma parse_no_custom_data:
  "parse_text (js no_custom_data_body) = Some no_custom_data_event"
  by code_simp

lemma parse_truncated: "parse_text (js truncated_body) = None"
  by code_simp

lemma sample_event_fields:
  "well_formed_event (sample_event name)"
  "event_name (sample_event name) = Some (JString (js name))"
  "order_identifier (sample_event name) = Some (JString (js ''ORD-1''))"
  "order_id (sample_event name) = Some (JString (js ''o1''))"
  by (simp_all add: sample_event_def well_formed_event_def event_name_def order_identifier_def
      order_id_def get_def is_object_def string_of_def js_def)


lemma js_inject: "(js a = js b) = (a = b)"
proof -
  have "inj (\<lambda>c :: char. (of_nat (of_char c) :: code_unit))"
  proof (rule injI)
    fix x y :: char
    assume "(of_nat (of_char x) :: code_unit) = of_nat (of_char y)"
    then have "unat (of_nat (of_char x) :: code_unit) = unat (of_nat (of_char y) :: code_unit)"
      by simp
    moreover have "(of_char c :: nat) < 65536" for c :: char
      using nat_of_char_less_256 [of c] by (simp only: order_less_trans [where y = 256])
    ultimately have "(of_char x :: nat) = of_char y"
      by (simp add: unat_of_nat16)
    then show "x = y" by simp
  qed
  then show ?thesis
    unfolding js_def by (simp add: inj_map_eq_map)
qed

lemma js_append: "js a @ js b = js (a @ b)"
  by (simp add: js_def)

section \<open>Capital letters\<close>

lemma hex_with_differ:
  assumes "hex_with ds bs \<noteq> hex_with es bs"
  shows "\<exists>k<16. ds ! k \<noteq> es ! k \<and> ds ! k \<in> set (hex_with ds bs)"
  using assms
proof (induction bs)
  case Nil
  then show ?case by (simp add: hex_with_def)
next
  case (Cons b bs)
  have hi: "(of_char b :: nat) div 16 < 16"
    by (rule less_mult_imp_div_less) simp
  have lo: "(of_char b :: nat) mod 16 < 16"
    by simp
  have c: "hex_with xs (b # bs) = [xs ! (of_char b div 16), xs ! (of_char b mod 16)] @ hex_with xs bs"
    for xs by (simp add: hex_with_def)
  consider "ds ! (of_char b div 16) \<noteq> es ! (of_char b div 16)"
    | "ds ! (of_char b mod 16) \<noteq> es ! (of_char b mod 16)"
    | "hex_with ds bs \<noteq> hex_with es bs"
    using Cons.prems unfolding c by auto
  then show ?case
  proof cases
    case 1
    then show ?thesis using hi unfolding c by (intro exI [of _ "of_char b div 16"]) simp
  next
    case 2
    then show ?thesis using lo unfolding c by (intro exI [of _ "of_char b mod 16"]) simp
  next
    case 3
    then obtain k where "k < 16" "ds ! k \<noteq> es ! k" "ds ! k \<in> set (hex_with ds bs)"
      using Cons.IH by blast
    then show ?thesis unfolding c by (intro exI [of _ k]) simp
  qed
qed

lemma capital_not_lower:
  assumes "k < 16" "''0123456789ABCDEF'' ! k \<noteq> ''0123456789abcdef'' ! k"
  shows "''0123456789ABCDEF'' ! k \<notin> set ''0123456789abcdef''"
proof -
  have "list_all
      (\<lambda>k. ''0123456789ABCDEF'' ! k = ''0123456789abcdef'' ! k
         \<or> ''0123456789ABCDEF'' ! k \<notin> set ''0123456789abcdef'')
      [0..<16]"
    by code_simp
  moreover have "k \<in> set [0..<16]"
    using assms(1) by simp
  ultimately show ?thesis
    using assms(2) unfolding list_all_iff by blast
qed

lemma upper_not_digest:
  assumes "hex_with ''0123456789ABCDEF'' m \<noteq> hex m"
  shows "hex_with ''0123456789ABCDEF'' m \<noteq> hex m'"
proof
  assume e: "hex_with ''0123456789ABCDEF'' m = hex m'"
  obtain k where k: "k < 16" "''0123456789ABCDEF'' ! k \<noteq> ''0123456789abcdef'' ! k"
    "''0123456789ABCDEF'' ! k \<in> set (hex_with ''0123456789ABCDEF'' m)"
    using hex_with_differ [OF assms [unfolded hex_def]] by blast
  have "set (hex m') \<subseteq> set ''0123456789abcdef''"
    unfolding hex_def by (rule set_hex_with) simp
  then have "''0123456789ABCDEF'' ! k \<in> set ''0123456789abcdef''"
    using k(3) e by auto
  then show False
    using capital_not_lower [OF k(1,2)] by blast
qed

section \<open>Requests the check turns away\<close>

text \<open>
  The replies to three signed requests: a body that is not UTF-8, the body \<^verbatim>\<open>{}\<close> declared
  as UTF-16, and the order of the scenario under a \<^verbatim>\<open>Content-Type\<close> that is no media type.
\<close>

lemma secret_bytes:
  "Buffer_from_utf8 (signingSecret None) = []"
  "Buffer_from_utf8 (signingSecret abc123) = ''abc123''"
proof -
  show "Buffer_from_utf8 (signingSecret None) = []"
    by (simp add: signingSecret_def js_def Buffer_from_utf8_def)
  show "Buffer_from_utf8 (signingSecret abc123) = ''abc123''"
    using Buffer_from_ascii [of "''abc123''"]
    by (simp add: abc123_def signingSecret_def ascii_def js_def)
qed

lemma replacement_bytes: "Buffer_from_utf8 [0xFFFD] = [CHR 0xEF, CHR 0xBF, CHR 0xBD]"
  by (simp add: Buffer_from_utf8_def lone_def is_high_def is_low_def encode_utf8_def
      char_of_eq_iff)

lemma digest_replacement:
  "digest None [0xFFFD] = ''af745905970a0b9d55dac2288701f16d83e0944474321db26f5b3bf5e55abd3d''"
  by (simp add: digest_def digest_bytes replacement_bytes secret_bytes hmac_replacement)

lemma handler_byte_ff:
  "handler sample_runtime None (signed_request None byte_ff) =
     ([Hmac_update [0xFFFD],
       Timing_safe_equal ''af745905970a0b9d55dac2288701f16d83e0944474321db26f5b3bf5e55abd3d''
         ''4985f8759521234ca18940b2ed17fadf89364a4d07c7259ca1aa42942861a61e''],
      Responded 400 (Message (js ''Invalid signature.'')))"
proof -
  let ?req = "signed_request None byte_ff"
  have "undecoded sample_runtime ?req"
    unfolding signed_request_def by (rule sample_delivery) (simp add: byte_ff_def limit_def)
  then have t: "rawBody sample_runtime ?req = Some [0xFFFD]"
    by (simp add: rawBody_undecoded signed_request_fields byte_ff_def toString_utf8_def
        utf16_def)
  have s: "Buffer_from_utf8 (provider_signature None byte_ff)
      = ''4985f8759521234ca18940b2ed17fadf89364a4d07c7259ca1aa42942861a61e''"
    using Buffer_from_ascii [OF ascii_hex, of "hmac_sha256 [] byte_ff"]
    by (simp add: provider_signature_def secret_bytes hmac_byte_ff)
  have "handler sample_runtime None ?req =
      ([Hmac_update [0xFFFD],
        Timing_safe_equal (digest None [0xFFFD])
          (Buffer_from_utf8 (provider_signature None byte_ff))],
       Responded 400 (Message (js ''Invalid signature.'')))"
    by (rule handler_mismatch [OF _ t]) (simp_all add: signed_request_fields s digest_replacement)
  then show ?thesis
    by (simp add: s digest_replacement)
qed

lemma charset_utf16le:
  "charset (js ''application/json; charset=utf-16le'') = Inr (Some (js ''utf-16le''))"
  by code_simp

lemma canonical_utf16le: "canonical (js ''utf-16le'') = js ''utf16le''"
  by code_simp

lemma utf16_request_fields:
  "req_method utf16_request = js ''POST''"
  "req_body utf16_request = empty_object_body"
  "x_signature utf16_request = Some (provider_signature abc123 empty_object_body)"
  by (simp_all add: utf16_request_def signed_request_def delivery_def)

lemma utf16le_empty_object: "utf16le empty_object_body = [0x7D7B]"
  by (simp add: empty_object_body_def)

lemma utf16le_bytes: "Buffer_from_utf8 [0x7D7B] = [CHR 0xE7, CHR 0xB5, CHR 0xBB]"
  by (simp add: Buffer_from_utf8_def lone_def is_high_def is_low_def encode_utf8_def
      char_of_eq_iff)

lemma rawBody_utf16: "rawBody sample_runtime utf16_request = Some [0x7D7B]"
proof -
  have "getDecoder (js ''utf-16le'') = Some (\<lambda>bs. strip_bom (utf16le bs))"
    by (simp add: getDecoder_def canonical_utf16le js_inject)
  moreover have "js ''utf-16le'' \<noteq> []" "js ''application/json; charset=utf-16le'' \<noteq> []"
    by (simp_all add: js_def)
  moreover have "int (length empty_object_body) \<le> limit"
    by (simp add: empty_object_body_def limit_def)
  ultimately have "micro_buffer utf16_request = Inr (Body_string [0x7D7B])"
    by (simp add: micro_buffer_def media_def utf16_request_def signed_request_def delivery_def
        charset_utf16le getRawBody_def decoder_def utf16le_empty_object strip_bom_def)
  then show ?thesis
    by (simp add: rawBody_def sample_runtime_def toString_def)
qed

lemma signature_empty_object:
  "Buffer_from_utf8 (provider_signature abc123 empty_object_body)
     = ''b65d06306051d683161164b9e008febf52ec4eafbe8ee54f7e07062a1b6a5d0a''"
  using Buffer_from_ascii [OF ascii_hex, of "hmac_sha256 ''abc123'' empty_object_body"]
  by (simp add: provider_signature_def secret_bytes hmac_empty_object)

lemma handler_utf16:
  "handler sample_runtime abc123 utf16_request =
     ([Hmac_update [0x7D7B],
       Timing_safe_equal ''ab735cf15a38f745b66871c4e36f6d2b486854461dd5e694530229acd3f74de7''
         ''b65d06306051d683161164b9e008febf52ec4eafbe8ee54f7e07062a1b6a5d0a''],
      Responded 400 (Message (js ''Invalid signature.'')))"
proof -
  have d: "digest abc123 [0x7D7B]
      = ''ab735cf15a38f745b66871c4e36f6d2b486854461dd5e694530229acd3f74de7''"
    by (simp add: digest_def digest_bytes secret_bytes utf16le_bytes hmac_utf16le)
  have "handler sample_runtime abc123 utf16_request =
      ([Hmac_update [0x7D7B],
        Timing_safe_equal (digest abc123 [0x7D7B])
          (Buffer_from_utf8 (provider_signature abc123 empty_object_body))],
       Responded 400 (Message (js ''Invalid signature.'')))"
    by (rule handler_mismatch [OF _ rawBody_utf16])
       (simp_all add: utf16_request_fields signature_empty_object d)
  then show ?thesis
    by (simp add: signature_empty_object d)
qed

lemma charset_no_media_type:
  "charset (js ''json'') = Inl (Thrown_Error (js ''invalid media type''))"
  by code_simp

lemma handler_untyped:
  "handler sample_runtime abc123 untyped_request =
     ([], Responded 400 (Message (js ''Webhook error: invalid media type'')))"
proof -
  have "js ''json'' \<noteq> []"
    by (simp add: js_def)
  then have "buffer sample_runtime untyped_request
      = Inl (Thrown_Error (js ''invalid media type''))"
    by (simp add: sample_runtime_def micro_buffer_def media_def untyped_request_def
        signed_request_def delivery_def charset_no_media_type)
  then have "handler sample_runtime abc123 untyped_request =
      ([], catch_block (Thrown_Error (js ''invalid media type'')))"
    by (intro handler_rejected) (simp_all add: untyped_request_def signed_request_def delivery_def)
  then show ?thesis
    by (simp add: catch_block_def js_append)
qed

section \<open>Event names\<close>

text \<open>
  The names the handler tests for are \<^verbatim>\<open>order_created\<close>, \<^verbatim>\<open>order_refunded\<close> and the empty
  name. An accepted event of the shape of \<^verbatim>\<open>ResBody['body']\<close> with any other name is answered
  with the unknown-event error, which quotes the name, the identifier and the id.
\<close>

lemma untested_name_unknown:
  assumes "req_method req = js ''POST''" "verified rt env req" "rawBody rt req = Some t"
    "parse_text t = Some p" "well_formed_event p"
    "event_name p = Some (JString name)"
    "name \<noteq> js ''order_created''" "name \<noteq> js ''order_refunded''" "name \<noteq> js ''''"
    "order_identifier p = Some (JString identifier)" "order_id p = Some (JString orderId)"
  shows "response rt env req =
    Responded 400
      (Message (js ''Unknown event name: '' @ name @ js '' for order: '' @ identifier
         @ js '' ('' @ orderId @ js '')''))"
  unfolding response_def handler_verified [OF assms(1,2,3)]
    after_verification_event [OF assms(4,5)]
  using assms(7-9)
  by (simp add: assms(6,10,11) dispatch_def is_string_def after_try_def substitution_string)

section \<open>The claims\<close>

text \<open>
  C1. A signature that differs from the digest is to be answered 400
  \<^verbatim>\<open>{ message: "Invalid signature." }\<close> whatever its length. The handler does so only for
  a signature of the digest's length: for the one-character signature \<^verbatim>\<open>0\<close> the comparison
  raises, the \<^verbatim>\<open>catch\<close> block answers with the text of the error, and the body is not
  parsed.
\<close>

theorem short_signature_webhook_error:
  "handler sample_runtime abc123 short_signature =
     ([Hmac_update (js order_created_body),
       Timing_safe_equal (digest abc123 (js order_created_body)) ''0''],
      Responded 400
        (Message (js ''Webhook error: Input buffers must have the same byte length'')))"
proof -
  have b: "Buffer_from_utf8 (js ''0'') = ''0''"
    by (rule Buffer_from_ascii) (simp add: ascii_def)
  have r: "rawBody sample_runtime short_signature = Some (js order_created_body)"
    unfolding short_signature_def by (rule sample_rawBody) (rule ascii_bodies small_bodies)+
  have "handler sample_runtime abc123 short_signature =
     ([Hmac_update (js order_created_body),
       Timing_safe_equal (digest abc123 (js order_created_body)) (Buffer_from_utf8 (js ''0''))],
      Responded 400
        (Message (js ''Webhook error: ''
           @ error_message sample_runtime ERR_CRYPTO_TIMING_SAFE_EQUAL_LENGTH)))"
    by (rule handler_length_mismatch [OF _ r])
       (simp_all add: short_signature_def delivery_fields b)
  then show ?thesis
    unfolding b by (simp add: sample_runtime_def sample_message_def js_append)
qed

text \<open>
  C2. A request without the header is to be answered 400
  \<^verbatim>\<open>{ message: "Invalid signature." }\<close>. The handler answers 400 with the text of the
  TypeError that \<^verbatim>\<open>Buffer.from(undefined, 'utf8')\<close> raised.
\<close>

theorem no_signature_webhook_error:
  "handler sample_runtime abc123 no_signature =
     ([Hmac_update (js order_created_body)],
      Responded 400
        (Message (js (''Webhook error: The first argument must be of type string or an ''
           @ ''instance of Buffer, ArrayBuffer, or Array or an Array-like Object. ''
           @ ''Received undefined''))))"
proof -
  have r: "rawBody sample_runtime no_signature = Some (js order_created_body)"
    unfolding no_signature_def by (rule sample_rawBody) (rule ascii_bodies small_bodies)+
  have "handler sample_runtime abc123 no_signature =
     ([Hmac_update (js order_created_body)],
      Responded 400
        (Message (js ''Webhook error: '' @ error_message sample_runtime ERR_INVALID_ARG_TYPE)))"
    by (rule handler_no_header [OF _ r]) (simp_all add: no_signature_def delivery_fields)
  then show ?thesis
    by (simp add: sample_runtime_def sample_message_def js_append)
qed

text \<open>
  C3, as stated: the digest is computed over the bytes of the body as they came. The
  handler hashes the text of line 47. For the body of the single byte FF that text is
  U+FFFD, the bytes hashed are EF BF BD, and the digest compared differs from the HMAC of
  the body. For the body \<^verbatim>\<open>{}\<close> sent with \<^verbatim>\<open>charset=utf-16le\<close> micro has decoded the text
  U+7D7B before line 47, and the bytes hashed are E7 B5 BB.
\<close>

theorem digest_of_decoded_text:
  "calls sample_runtime None (signed_request None byte_ff) =
     [Hmac_update [0xFFFD],
      Timing_safe_equal ''af745905970a0b9d55dac2288701f16d83e0944474321db26f5b3bf5e55abd3d''
        ''4985f8759521234ca18940b2ed17fadf89364a4d07c7259ca1aa42942861a61e'']
   \<and> Buffer_from_utf8 [0xFFFD] = [CHR 0xEF, CHR 0xBF, CHR 0xBD]
   \<and> req_body (signed_request None byte_ff) = [CHR 0xFF]
   \<and> hex (hmac_sha256 [] (req_body (signed_request None byte_ff)))
       = ''4985f8759521234ca18940b2ed17fadf89364a4d07c7259ca1aa42942861a61e''
   \<and> digest None [0xFFFD] \<noteq> hex (hmac_sha256 [] (req_body (signed_request None byte_ff)))
   \<and> calls sample_runtime abc123 utf16_request =
       [Hmac_update [0x7D7B],
        Timing_safe_equal ''ab735cf15a38f745b66871c4e36f6d2b486854461dd5e694530229acd3f74de7''
          ''b65d06306051d683161164b9e008febf52ec4eafbe8ee54f7e07062a1b6a5d0a'']
   \<and> Buffer_from_utf8 [0x7D7B] = [CHR 0xE7, CHR 0xB5, CHR 0xBB]
   \<and> req_body utf16_request = ''{}''
   \<and> well_formed_utf8 (req_body utf16_request)"
proof -
  have b: "req_body (signed_request None byte_ff) = [CHR 0xFF]"
    by (simp add: signed_request_fields byte_ff_def)
  have h: "hex (hmac_sha256 [] [CHR 0xFF])
      = ''4985f8759521234ca18940b2ed17fadf89364a4d07c7259ca1aa42942861a61e''"
    using hmac_byte_ff by (simp add: byte_ff_def)
  have e: "req_body utf16_request = ''{}''"
    by (simp add: utf16_request_fields empty_object_body_def)
  have w: "well_formed_utf8 ''{}''"
    by simp
  show ?thesis
    unfolding b e h
    by (simp add: calls_def handler_byte_ff handler_utf16 replacement_bytes utf16le_bytes
        digest_replacement w)
qed

text \<open>
  C3, amended. For every POST request: when \<^verbatim>\<open>buffer(req)\<close> is rejected nothing is hashed
  or parsed; otherwise the handler hashes the text of line 47, the digest it compares is
  the HMAC-SHA256 of the UTF-8 bytes of that text in hexadecimal, and these are the
  bytes of the body whenever micro handed the body on undecoded and the body is
  well-formed UTF-8; when the header has the bytes of the digest, \<^verbatim>\<open>JSON.parse\<close> is
  called after the comparison, on that same text, and in every other case it is not
  called.
\<close>

theorem digest_before_parsing:
  "req_method req = js ''POST'' \<Longrightarrow>
     (rawBody rt req = None \<longrightarrow> calls rt env req = [])
     \<and> (\<forall>t. rawBody rt req = Some t \<longrightarrow>
           (\<exists>rest. calls rt env req = Hmac_update t # rest)
           \<and> (\<forall>a b. Timing_safe_equal a b \<in> set (calls rt env req) \<longrightarrow> a = digest env t)
           \<and> digest env t
               = hex (hmac_sha256 (Buffer_from_utf8 (signingSecret env)) (Buffer_from_utf8 t)))
     \<and> (undecoded rt req \<and> well_formed_utf8 (req_body req) \<longrightarrow>
           (\<exists>t. rawBody rt req = Some t \<and> Buffer_from_utf8 t = req_body req))
     \<and> (verified rt env req \<longrightarrow>
           (\<exists>t. rawBody rt req = Some t
              \<and> calls rt env req =
                  [Hmac_update t, Timing_safe_equal (digest env t) (digest env t),
                   Json_parse t]))
     \<and> (\<not> verified rt env req \<longrightarrow> (\<forall>t. Json_parse t \<notin> set (calls rt env req)))"
proof -
  assume post: "req_method req = js ''POST''"
  have none: "rawBody rt req = None \<longrightarrow> calls rt env req = []"
    using handler_no_rawBody [OF post] by blast
  have w: "undecoded rt req \<and> well_formed_utf8 (req_body req) \<longrightarrow>
      (\<exists>t. rawBody rt req = Some t \<and> Buffer_from_utf8 t = req_body req)"
    by (simp add: rawBody_undecoded Buffer_from_toString)
  have d: "digest env t
      = hex (hmac_sha256 (Buffer_from_utf8 (signingSecret env)) (Buffer_from_utf8 t))" for t
    by (simp add: digest_def digest_bytes)
  show ?thesis
  proof (cases "verified rt env req")
    case True
    then obtain t where t: "rawBody rt req = Some t"
      using verified_rawBody by blast
    show ?thesis
      using w d True t by (simp add: calls_def handler_verified [OF post True t])
  next
    case False
    then show ?thesis
    proof (cases rule: not_verified_cases)
      case 1
      then show ?thesis
        using w False none by simp
    next
      case (2 t)
      show ?thesis
        using w d False 2(1) by (simp add: calls_def handler_no_header [OF post 2])
    next
      case (3 t s)
      show ?thesis
        using w d False 3(1) by (simp add: calls_def handler_length_mismatch [OF post 3])
    next
      case (4 t s)
      show ?thesis
        using w d False 4(1) by (simp add: calls_def handler_mismatch [OF post 4])
    qed
  qed
qed

theorem digest_before_parsing_witness:
  "req_method (signed_request abc123 order_created_body) = js ''POST''
   \<and> rawBody sample_runtime (signed_request abc123 order_created_body)
       = Some (js order_created_body)
   \<and> undecoded sample_runtime (signed_request abc123 order_created_body)
   \<and> well_formed_utf8 (req_body (signed_request abc123 order_created_body))
   \<and> Buffer_from_utf8 (js order_created_body)
       = req_body (signed_request abc123 order_created_body)
   \<and> verified sample_runtime abc123 (signed_request abc123 order_created_body)
   \<and> calls sample_runtime abc123 (signed_request abc123 order_created_body) =
       [Hmac_update (js order_created_body),
        Timing_safe_equal (hex (hmac_sha256 ''abc123'' order_created_body))
          (hex (hmac_sha256 ''abc123'' order_created_body)),
        Json_parse (js order_created_body)]
   \<and> req_method short_signature = js ''POST''
   \<and> \<not> verified sample_runtime abc123 short_signature
   \<and> Json_parse (js order_created_body) \<notin> set (calls sample_runtime abc123 short_signature)
   \<and> req_method untyped_request = js ''POST''
   \<and> rawBody sample_runtime untyped_request = None
   \<and> calls sample_runtime abc123 untyped_request = []"
proof -
  let ?req = "signed_request abc123 order_created_body"
  have wf: "well_formed_utf8 order_created_body"
    by (rule well_formed_ascii) (rule ascii_bodies)
  have u: "undecoded sample_runtime ?req"
    unfolding signed_request_def by (rule sample_delivery) (rule small_bodies)
  have v: "verified sample_runtime abc123 ?req"
    by (rule sample_verified) (rule ascii_bodies small_bodies)+
  have r: "rawBody sample_runtime ?req = Some (js order_created_body)"
    unfolding signed_request_def by (rule sample_rawBody) (rule ascii_bodies small_bodies)+
  have b: "Buffer_from_utf8 (js order_created_body) = order_created_body"
    by (rule Buffer_from_ascii) (rule ascii_bodies)
  have d: "digest abc123 (js order_created_body) = hex (hmac_sha256 ''abc123'' order_created_body)"
    by (simp add: digest_def digest_bytes secret_bytes b)
  have one: "calls sample_runtime abc123 ?req =
       [Hmac_update (js order_created_body),
        Timing_safe_equal (hex (hmac_sha256 ''abc123'' order_created_body))
          (hex (hmac_sha256 ''abc123'' order_created_body)),
        Json_parse (js order_created_body)]"
    using digest_before_parsing
        [where req = "signed_request abc123 order_created_body" and rt = sample_runtime
           and env = abc123, OF signed_request_fields(1)] v r
    by (simp add: d)
  have rs: "rawBody sample_runtime short_signature = Some (js order_created_body)"
    unfolding short_signature_def by (rule sample_rawBody) (rule ascii_bodies small_bodies)+
  have nv: "\<not> verified sample_runtime abc123 short_signature"
  proof
    assume "verified sample_runtime abc123 short_signature"
    moreover have "x_signature short_signature = Some (js ''0'')"
      by (simp add: short_signature_def delivery_fields)
    ultimately have "Buffer_from_utf8 (js ''0'') = digest abc123 (js order_created_body)"
      by (simp add: verified_def rs)
    then have "length (Buffer_from_utf8 (js ''0'')) = 64"
      by (simp add: digest_def length_digest)
    moreover have "Buffer_from_utf8 (js ''0'') = ''0''"
      by (rule Buffer_from_ascii) (simp add: ascii_def)
    ultimately show False by simp
  qed
  have post: "req_method short_signature = js ''POST''"
    by (simp add: short_signature_def delivery_fields)
  have two: "Json_parse (js order_created_body) \<notin> set (calls sample_runtime abc123 short_signature)"
    using digest_before_parsing [OF post, where rt = sample_runtime and env = abc123] nv
    by blast
  have pu: "req_method untyped_request = js ''POST''"
    by (simp add: untyped_request_def signed_request_def delivery_def)
  have ru: "rawBody sample_runtime untyped_request = None"
  proof (cases "rawBody sample_runtime untyped_request")
    case None
    then show ?thesis .
  next
    case (Some t)
    then obtain rest where "calls sample_runtime abc123 untyped_request = Hmac_update t # rest"
      using digest_before_parsing [OF pu, where rt = sample_runtime and env = abc123] by blast
    then show ?thesis
      by (simp add: calls_def handler_untyped)
  qed
  have three: "calls sample_runtime abc123 untyped_request = []"
    using digest_before_parsing [OF pu, where rt = sample_runtime and env = abc123] ru by blast
  show ?thesis
    using wf u v r b one nv post two pu ru three by (simp add: signed_request_fields)
qed

text \<open>
  C4. An event of one of the subscription and licence kinds that the comment of lines 77
  to 87 lists is to be acknowledged with 200. The branch that holds the comment tests for
  the empty name, so the handler answers such an event with the unknown-event error.
\<close>

theorem subscription_created_unknown:
  "handler sample_runtime abc123 (signed_request abc123 subscription_created_body) =
     ([Hmac_update (js subscription_created_body),
       Timing_safe_equal (hex (hmac_sha256 ''abc123'' subscription_created_body))
         (hex (hmac_sha256 ''abc123'' subscription_created_body)),
       Json_parse (js subscription_created_body)],
      Responded 400
        (Message (js ''Unknown event name: subscription_created for order: ORD-1 (o1)'')))"
proof -
  let ?req = "signed_request abc123 subscription_created_body"
  have v: "verified sample_runtime abc123 ?req"
    by (rule sample_verified) (rule ascii_bodies small_bodies)+
  have r: "rawBody sample_runtime ?req = Some (js subscription_created_body)"
    unfolding signed_request_def by (rule sample_rawBody) (rule ascii_bodies small_bodies)+
  have d: "digest abc123 (js subscription_created_body)
      = hex (hmac_sha256 ''abc123'' subscription_created_body)"
    by (simp add: digest_def digest_bytes secret_bytes Buffer_from_ascii ascii_bodies)
  have a: "after_verification sample_runtime (js subscription_created_body) =
      Inr (Some (Responded 400
        (Message (js ''Unknown event name: subscription_created for order: ORD-1 (o1)''))))"
    unfolding after_verification_event [OF parse_subscription_created sample_event_fields(1)]
    by (simp add: sample_event_fields dispatch_def is_string_def js_inject substitution_string
        js_append)
  show ?thesis
    unfolding handler_verified [OF signed_request_fields(1) v r] d a
    by (simp add: after_try_def)
qed

text \<open>
  C5, as stated: the HMAC of any body passes. The body of the single byte FF with the
  HMAC of that byte under the empty secret is answered \<^verbatim>\<open>Invalid signature.\<close>; so is the
  body \<^verbatim>\<open>{}\<close> with its HMAC when the \<^verbatim>\<open>Content-Type\<close> says \<^verbatim>\<open>charset=utf-16le\<close>; and the
  order of the scenario with its HMAC is answered with the error of micro when the
  \<^verbatim>\<open>Content-Type\<close> is no media type.
\<close>

theorem provider_signature_rejected:
  "x_signature (signed_request None byte_ff)
     = Some (provider_signature None (req_body (signed_request None byte_ff)))
   \<and> response sample_runtime None (signed_request None byte_ff)
       = Responded 400 (Message (js ''Invalid signature.''))
   \<and> x_signature utf16_request = Some (provider_signature abc123 (req_body utf16_request))
   \<and> well_formed_utf8 (req_body utf16_request)
   \<and> response sample_runtime abc123 utf16_request
       = Responded 400 (Message (js ''Invalid signature.''))
   \<and> x_signature untyped_request
       = Some (provider_signature abc123 (req_body untyped_request))
   \<and> well_formed_utf8 (req_body untyped_request)
   \<and> response sample_runtime abc123 untyped_request
       = Responded 400 (Message (js ''Webhook error: invalid media type''))"
proof -
  have "well_formed_utf8 order_created_body"
    by (rule well_formed_ascii) (rule ascii_bodies)
  moreover have "req_body untyped_request = order_created_body"
    "x_signature untyped_request = Some (provider_signature abc123 order_created_body)"
    by (simp_all add: untyped_request_def signed_request_def delivery_def)
  ultimately show ?thesis
    by (simp add: response_def handler_byte_ff handler_utf16 handler_untyped
        signed_request_fields utf16_request_fields empty_object_body_def)
qed

text \<open>
  C5, amended. For every secret and every POST request whose body micro handed on
  undecoded and whose body is well-formed UTF-8, the HMAC-SHA256 of the body under the
  secret, in lower-case hexadecimal, passes the check as the header: the two buffers
  compared are equal, the body is parsed, and the answer is that of lines 58 to 108.
\<close>

theorem provider_signature_accepted:
  assumes "req_method req = js ''POST''" "undecoded rt req" "well_formed_utf8 (req_body req)"
    "x_signature req = Some (provider_signature env (req_body req))"
  shows "verified rt env req
     \<and> handler rt env req =
         ([Hmac_update (toString_utf8 (req_body req)),
           Timing_safe_equal
             (hex (hmac_sha256 (Buffer_from_utf8 (signingSecret env)) (req_body req)))
             (hex (hmac_sha256 (Buffer_from_utf8 (signingSecret env)) (req_body req))),
           Json_parse (toString_utf8 (req_body req))],
          after_try (after_verification rt (toString_utf8 (req_body req))))"
proof -
  have v: "verified rt env req"
    using assms(2-4) by (rule provider_verified)
  have r: "rawBody rt req = Some (toString_utf8 (req_body req))"
    using assms(2) by (rule rawBody_undecoded)
  show ?thesis
    using v by (simp add: handler_verified [OF assms(1) v r] digest_well_formed [OF assms(3)])
qed

theorem provider_signature_accepted_witness:
  "req_method (signed_request abc123 order_created_body) = js ''POST''
   \<and> undecoded sample_runtime (signed_request abc123 order_created_body)
   \<and> well_formed_utf8 (req_body (signed_request abc123 order_created_body))
   \<and> x_signature (signed_request abc123 order_created_body)
       = Some (provider_signature abc123 (req_body (signed_request abc123 order_created_body)))
   \<and> verified sample_runtime abc123 (signed_request abc123 order_created_body)
   \<and> handler sample_runtime abc123 (signed_request abc123 order_created_body) =
       ([Hmac_update (js order_created_body),
         Timing_safe_equal (hex (hmac_sha256 ''abc123'' order_created_body))
           (hex (hmac_sha256 ''abc123'' order_created_body)),
         Json_parse (js order_created_body)],
        Responded 200 Received)"
proof -
  let ?req = "signed_request abc123 order_created_body"
  have wf: "well_formed_utf8 (req_body ?req)"
    unfolding signed_request_fields by (rule well_formed_ascii) (rule ascii_bodies)
  have u: "undecoded sample_runtime ?req"
    unfolding signed_request_def by (rule sample_delivery) (rule small_bodies)
  have x: "x_signature ?req = Some (provider_signature abc123 (req_body ?req))"
    by (simp add: signed_request_fields)
  have a: "after_verification sample_runtime (js order_created_body) = Inr None"
    unfolding after_verification_event [OF parse_order_created sample_event_fields(1)]
    by (simp add: sample_event_fields dispatch_def is_string_def)
  show ?thesis
    using provider_signature_accepted [OF signed_request_fields(1) u wf x] wf u
    by (simp add: signed_request_fields secret_bytes a toString_ascii ascii_bodies after_try_def)
qed

text \<open>
  C6. A POST request whose signature is accepted and whose body parses to an event of
  the shape of \<^verbatim>\<open>ResBody['body']\<close> with the name \<^verbatim>\<open>order_created\<close> is answered 200
  \<^verbatim>\<open>{ received: true }\<close>.
\<close>

theorem order_created_received:
  assumes "req_method req = js ''POST''" "verified rt env req" "rawBody rt req = Some t"
    "parse_text t = Some p" "well_formed_event p"
    "event_name p = Some (JString (js ''order_created''))"
  shows "response rt env req = Responded 200 Received"
  unfolding response_def handler_verified [OF assms(1,2,3)]
    after_verification_event [OF assms(4,5)]
  by (simp add: assms(6) dispatch_def is_string_def after_try_def)

theorem order_created_received_witness:
  "req_method (signed_request abc123 order_created_body) = js ''POST''
   \<and> verified sample_runtime abc123 (signed_request abc123 order_created_body)
   \<and> rawBody sample_runtime (signed_request abc123 order_created_body)
       = Some (js order_created_body)
   \<and> parse_text (js order_created_body) = Some (sample_event ''order_created'')
   \<and> well_formed_event (sample_event ''order_created'')
   \<and> event_name (sample_event ''order_created'') = Some (JString (js ''order_created''))
   \<and> response sample_runtime abc123 (signed_request abc123 order_created_body)
       = Responded 200 Received"
proof -
  let ?req = "signed_request abc123 order_created_body"
  have v: "verified sample_runtime abc123 ?req"
    by (rule sample_verified) (rule ascii_bodies small_bodies)+
  have r: "rawBody sample_runtime ?req = Some (js order_created_body)"
    unfolding signed_request_def by (rule sample_rawBody) (rule ascii_bodies small_bodies)+
  show ?thesis
    using order_created_received
      [OF signed_request_fields(1) v r parse_order_created sample_event_fields(1)
        sample_event_fields(2)]
      v r
    by (simp add: signed_request_fields sample_event_fields parse_order_created)
qed

text \<open>
  C7. An event whose name is outside the recognized set is to be answered 400 with the
  unknown-event message. The empty name is no recognized name; the branch of line 76,
  whose comment lists the subscription and licence events, tests for it, and the handler
  answers the signed event with the empty name 200 \<^verbatim>\<open>{ received: true }\<close>.
\<close>

theorem empty_event_name_received:
  "verified sample_runtime abc123 (signed_request abc123 empty_name_body)
   \<and> parse_text (js empty_name_body) = Some (sample_event '''')
   \<and> well_formed_event (sample_event '''')
   \<and> event_name (sample_event '''') = Some (JString (js ''''))
   \<and> handler sample_runtime abc123 (signed_request abc123 empty_name_body) =
       ([Hmac_update (js empty_name_body),
         Timing_safe_equal (hex (hmac_sha256 ''abc123'' empty_name_body))
           (hex (hmac_sha256 ''abc123'' empty_name_body)),
         Json_parse (js empty_name_body)],
        Responded 200 Received)"
proof -
  let ?req = "signed_request abc123 empty_name_body"
  have v: "verified sample_runtime abc123 ?req"
    by (rule sample_verified) (rule ascii_bodies small_bodies)+
  have r: "rawBody sample_runtime ?req = Some (js empty_name_body)"
    unfolding signed_request_def by (rule sample_rawBody) (rule ascii_bodies small_bodies)+
  have d: "digest abc123 (js empty_name_body) = hex (hmac_sha256 ''abc123'' empty_name_body)"
    by (simp add: digest_def digest_bytes secret_bytes Buffer_from_ascii ascii_bodies)
  have a: "after_verification sample_runtime (js empty_name_body) = Inr None"
    unfolding after_verification_event [OF parse_empty_name sample_event_fields(1)]
    by (simp add: sample_event_fields dispatch_def is_string_def)
  have "handler sample_runtime abc123 ?req =
       ([Hmac_update (js empty_name_body),
         Timing_safe_equal (hex (hmac_sha256 ''abc123'' empty_name_body))
           (hex (hmac_sha256 ''abc123'' empty_name_body)),
         Json_parse (js empty_name_body)],
        Responded 200 Received)"
    unfolding handler_verified [OF signed_request_fields(1) v r] d a
    by (simp add: after_try_def)
  then show ?thesis
    using v by (simp add: parse_empty_name sample_event_fields)
qed

text \<open>
  C8. A POST request whose signature is accepted and whose body is not JSON is answered
  400 with a message that starts \<^verbatim>\<open>Webhook error: \<close> and goes on with the text of the
  SyntaxError. Whatever is thrown once the signature was accepted goes to the \<^verbatim>\<open>catch\<close>
  block, which answers 400 \<^verbatim>\<open>{ message: "Webhook error: <detail>" }\<close> for a string and for
  an Error, and throws any other value again.
\<close>

theorem webhook_error_boundary:
  "(req_method req = js ''POST'' \<and> verified rt env req \<and> rawBody rt req = Some t
      \<and> parse_text t = None
      \<longrightarrow> response rt env req =
            Responded 400
              (Message (js ''Webhook error: '' @ error_message rt (JSON_SyntaxError t))))
   \<and> (req_method req = js ''POST'' \<and> verified rt env req \<and> rawBody rt req = Some t
        \<and> after_verification rt t = Inl e
      \<longrightarrow> response rt env req = catch_block e)
   \<and> catch_block (Thrown_string s) = Responded 400 (Message (js ''Webhook error: '' @ s))
   \<and> catch_block (Thrown_Error m) = Responded 400 (Message (js ''Webhook error: '' @ m))
   \<and> catch_block Thrown_other = Uncaught Thrown_other"
proof (intro conjI impI)
  assume a: "req_method req = js ''POST'' \<and> verified rt env req \<and> rawBody rt req = Some t
    \<and> parse_text t = None"
  then have "after_verification rt t = Inl (Thrown_Error (error_message rt (JSON_SyntaxError t)))"
    by (simp add: after_verification_def JSON_parse_def raise_def)
  then show "response rt env req =
      Responded 400 (Message (js ''Webhook error: '' @ error_message rt (JSON_SyntaxError t)))"
    using a by (simp add: response_def handler_verified after_try_def catch_block_def)
next
  assume "req_method req = js ''POST'' \<and> verified rt env req \<and> rawBody rt req = Some t
    \<and> after_verification rt t = Inl e"
  then show "response rt env req = catch_block e"
    by (simp add: response_def handler_verified after_try_def)
qed (simp_all add: catch_block_def)

theorem webhook_error_boundary_witness:
  "req_method (signed_request abc123 truncated_body) = js ''POST''
   \<and> verified sample_runtime abc123 (signed_request abc123 truncated_body)
   \<and> rawBody sample_runtime (signed_request abc123 truncated_body) = Some (js truncated_body)
   \<and> parse_text (js truncated_body) = None
   \<and> after_verification sample_runtime (js truncated_body)
       = Inl (Thrown_Error (js ''Unexpected token in JSON''))
   \<and> response sample_runtime abc123 (signed_request abc123 truncated_body)
       = Responded 400 (Message (js ''Webhook error: Unexpected token in JSON''))
   \<and> response sample_runtime abc123 (signed_request abc123 truncated_body)
       = catch_block (Thrown_Error (js ''Unexpected token in JSON''))
   \<and> catch_block (Thrown_string (js ''stop''))
       = Responded 400 (Message (js ''Webhook error: stop''))
   \<and> catch_block (Thrown_Error (js ''Unexpected token in JSON''))
       = Responded 400 (Message (js ''Webhook error: Unexpected token in JSON''))
   \<and> catch_block Thrown_other = Uncaught Thrown_other"
proof -
  let ?req = "signed_request abc123 truncated_body"
  have v: "verified sample_runtime abc123 ?req"
    by (rule sample_verified) (rule ascii_bodies small_bodies)+
  have r: "rawBody sample_runtime ?req = Some (js truncated_body)"
    unfolding signed_request_def by (rule sample_rawBody) (rule ascii_bodies small_bodies)+
  have a: "after_verification sample_runtime (js truncated_body)
      = Inl (Thrown_Error (js ''Unexpected token in JSON''))"
    using parse_truncated
    by (simp add: after_verification_def JSON_parse_def raise_def sample_runtime_def
        sample_message_def)
  show ?thesis
    using webhook_error_boundary
      [of ?req sample_runtime abc123 "js truncated_body"
        "Thrown_Error (js ''Unexpected token in JSON'')"
        "js ''stop''" "js ''Unexpected token in JSON''"]
      v r a parse_truncated
    by (simp add: signed_request_fields sample_runtime_def sample_message_def js_append)
qed

text \<open>
  C9. A POST request whose body micro delivered and whose header is the HMAC-SHA256 of
  the body under the secret written with capital letters is answered
  \<^verbatim>\<open>Invalid signature.\<close> whenever that string differs from the one in lower case, that is,
  whenever the digest has a letter at all: the buffers compared are the characters of the
  lower-case digest and the characters of the header.
\<close>

theorem uppercase_signature_rejected:
  assumes "req_method req = js ''POST''" "rawBody rt req = Some t"
    "x_signature req = Some (upper_signature env (req_body req))"
    "upper_signature env (req_body req) \<noteq> provider_signature env (req_body req)"
  shows "handler rt env req =
    ([Hmac_update t,
      Timing_safe_equal (digest env t)
        (hex_with ''0123456789ABCDEF''
           (hmac_sha256 (Buffer_from_utf8 (signingSecret env)) (req_body req)))],
     Responded 400 (Message (js ''Invalid signature.'')))"
proof -
  let ?mac = "hmac_sha256 (Buffer_from_utf8 (signingSecret env)) (req_body req)"
  let ?up = "hex_with ''0123456789ABCDEF'' ?mac"
  have b: "Buffer_from_utf8 (upper_signature env (req_body req)) = ?up"
    unfolding upper_signature_def by (rule Buffer_from_ascii) (rule ascii_upper)
  have l: "length ?up = 64"
    by (simp add: length_hex_with length_hmac_sha256)
  have "?up \<noteq> hex ?mac"
    using assms(4) by (auto simp: upper_signature_def provider_signature_def)
  then have n: "?up \<noteq> digest env t"
    unfolding digest_def digest_bytes by (rule upper_not_digest)
  show ?thesis
    using handler_mismatch [OF assms(1,2,3), of env] b l n by simp
qed

theorem uppercase_signature_rejected_witness:
  "req_method upper_request = js ''POST''
   \<and> rawBody sample_runtime upper_request = Some (js order_created_body)
   \<and> x_signature upper_request = Some (upper_signature abc123 (req_body upper_request))
   \<and> upper_signature abc123 (req_body upper_request)
       = js ''E170CE384A82364552E4A9F3974B9BC7587EA5DEDC1746A60D743F7EB4DDEA5A''
   \<and> provider_signature abc123 (req_body upper_request)
       = js ''e170ce384a82364552e4a9f3974b9bc7587ea5dedc1746a60d743f7eb4ddea5a''
   \<and> upper_signature abc123 (req_body upper_request)
       \<noteq> provider_signature abc123 (req_body upper_request)
   \<and> response sample_runtime abc123 upper_request
       = Responded 400 (Message (js ''Invalid signature.''))"
proof -
  have f: "req_method upper_request = js ''POST''"
    "x_signature upper_request = Some (upper_signature abc123 (req_body upper_request))"
    "req_body upper_request = order_created_body"
    by (simp_all add: upper_request_def delivery_fields)
  have r: "rawBody sample_runtime upper_request = Some (js order_created_body)"
    unfolding upper_request_def by (rule sample_rawBody) (rule ascii_bodies small_bodies)+
  have u: "upper_signature abc123 order_created_body
      = js ''E170CE384A82364552E4A9F3974B9BC7587EA5DEDC1746A60D743F7EB4DDEA5A''"
    by (simp add: upper_signature_def secret_bytes hmac_order_created hex_with_def)
  have p: "provider_signature abc123 order_created_body
      = js ''e170ce384a82364552e4a9f3974b9bc7587ea5dedc1746a60d743f7eb4ddea5a''"
    by (simp add: provider_signature_def secret_bytes hmac_order_created hex_def hex_with_def)
  have n: "upper_signature abc123 (req_body upper_request)
      \<noteq> provider_signature abc123 (req_body upper_request)"
    by (simp add: f(3) u p js_inject)
  show ?thesis
    using uppercase_signature_rejected [OF f(1) r f(2) n] u p n r
      f(2) [unfolded f(3) u]
    by (simp add: response_def f(3) f(1))
qed

text \<open>
  C10. A POST request whose signature is accepted and whose body is JSON in which
  \<^verbatim>\<open>meta.custom_data\<close> or \<^verbatim>\<open>data.attributes\<close> is missing (or \<^verbatim>\<open>null\<close>) is answered 400 with
  a message that starts \<^verbatim>\<open>Webhook error: \<close> and goes on with the text of the TypeError of
  the pattern of lines 60 to 70, whatever the event name; it is not answered 200.
\<close>

theorem missing_field_webhook_error:
  assumes "req_method req = js ''POST''" "verified rt env req" "rawBody rt req = Some t"
    "parse_text t = Some p"
    "nullish (get (get (Some p) ''meta'') ''custom_data'')
       \<or> nullish (get (get (Some p) ''data'') ''attributes'')"
  shows "\<exists>k v. response rt env req =
    Responded 400
      (Message (js ''Webhook error: '' @ error_message rt (Destructure_TypeError k v)))"
proof -
  obtain k v where "after_verification rt t = raise rt (Destructure_TypeError k v)"
    using after_verification_missing [OF assms(4,5)] by blast
  then have "response rt env req =
    Responded 400
      (Message (js ''Webhook error: '' @ error_message rt (Destructure_TypeError k v)))"
    by (simp add: response_def handler_verified [OF assms(1,2,3)] raise_def after_try_def
        catch_block_def)
  then show ?thesis by blast
qed

theorem missing_field_webhook_error_witness:
  "req_method (signed_request abc123 no_custom_data_body) = js ''POST''
   \<and> verified sample_runtime abc123 (signed_request abc123 no_custom_data_body)
   \<and> rawBody sample_runtime (signed_request abc123 no_custom_data_body)
       = Some (js no_custom_data_body)
   \<and> parse_text (js no_custom_data_body) = Some no_custom_data_event
   \<and> event_name no_custom_data_event = Some (JString (js ''order_created''))
   \<and> nullish (get (get (Some no_custom_data_event) ''meta'') ''custom_data'')
   \<and> response sample_runtime abc123 (signed_request abc123 no_custom_data_body)
       = Responded 400
           (Message (js ''Webhook error: Cannot destructure property of custom_data''))"
proof -
  let ?req = "signed_request abc123 no_custom_data_body"
  have v: "verified sample_runtime abc123 ?req"
    by (rule sample_verified) (rule ascii_bodies small_bodies)+
  have r: "rawBody sample_runtime ?req = Some (js no_custom_data_body)"
    unfolding signed_request_def by (rule sample_rawBody) (rule ascii_bodies small_bodies)+
  have m: "get (Some no_custom_data_event) ''meta''
      = Some (JObject [(js ''event_name'', JString (js ''order_created''))])"
    by (simp add: no_custom_data_event_def get_def js_inject)
  have n: "get (get (Some no_custom_data_event) ''meta'') ''custom_data'' = None"
    unfolding m by (simp add: get_def js_inject)
  have e: "event_name no_custom_data_event = Some (JString (js ''order_created''))"
    unfolding event_name_def m by (simp add: get_def js_inject)
  have a: "after_verification sample_runtime (js no_custom_data_body)
      = Inl (Thrown_Error (js ''Cannot destructure property of custom_data''))"
    by code_simp
  have "response sample_runtime abc123 ?req
      = Responded 400
          (Message (js ''Webhook error: Cannot destructure property of custom_data''))"
    by (simp add: response_def handler_verified [OF signed_request_fields(1) v r] a
        after_try_def catch_block_def js_append)
  moreover have "\<exists>k v. response sample_runtime abc123 ?req =
      Responded 400
        (Message (js ''Webhook error: ''
           @ error_message sample_runtime (Destructure_TypeError k v)))"
    by (rule missing_field_webhook_error [OF signed_request_fields(1) v r parse_no_custom_data])
       (simp add: n nullish_def)
  ultimately show ?thesis
    using v r e n by (simp add: signed_request_fields nullish_def parse_no_custom_data)
qed

end
